theory Spec2Isabelle
  imports Complex_Main "HOL-Library.Word"
begin

section \<open>JavaScript values used by the matching pipeline\<close>

text \<open>
  The body of the account store's reply is parsed JSON. An absent property reads as
  \<open>undefined\<close>, written \<open>None\<close> here; a thrown \<open>Error\<close> is \<open>Inl\<close> of its message.
  A JavaScript number is a double; it is modelled by the real number it holds, and every
  arithmetic result of the handlers is rounded to the nearest double by \<open>fl64\<close> below.
  \<open>NaN\<close> is written out where the code of this repository can produce it; infinities
  are left out, no operation of the handlers overflows on finite operands.
\<close>

datatype json =
    JNull
  | JBool bool
  | JNum real
  | JStr string
  | JArr "json list"
  | JObj "(string \<times> json) list"

text \<open>\<open>!v\<close> is \<open>\<not> truthy v\<close>.\<close>

fun truthy :: "json option \<Rightarrow> bool" where
  "truthy None = False"
| "truthy (Some JNull) = False"
| "truthy (Some (JBool b)) = b"
| "truthy (Some (JNum n)) = (n \<noteq> 0)"
| "truthy (Some (JStr s)) = (s \<noteq> [])"
| "truthy (Some (JArr xs)) = True"
| "truthy (Some (JObj kvs)) = True"

text \<open>
  \<open>v.k\<close> for the keys \<open>approved\<close>, \<open>photo\<close> and \<open>signature\<close>: reading a property of
  \<open>null\<close> or \<open>undefined\<close> throws a TypeError, an object yields its entry (a parsed
  object holds each key once), and every other value has no such property.
\<close>

fun get_prop :: "json option \<Rightarrow> string \<Rightarrow> string + json option" where
  "get_prop None k = Inl ''TypeError: Cannot read properties of undefined''"
| "get_prop (Some JNull) k = Inl ''TypeError: Cannot read properties of null''"
| "get_prop (Some (JObj kvs)) k = Inr (map_of kvs k)"
| "get_prop (Some v) k = Inr None"

text \<open>
  \<open>s.split(',')[1]\<close>: the text between the first and the second comma, \<open>undefined\<close>
  when \<open>s\<close> has no comma.
\<close>

definition split_comma_1 :: "string \<Rightarrow> string option" where
  "split_comma_1 s =
     (if CHR '','' \<in> set s
      then Some (takeWhile (\<lambda>c. c \<noteq> CHR '','') (tl (dropWhile (\<lambda>c. c \<noteq> CHR '','') s)))
      else None)"

subsection \<open>Double-precision arithmetic\<close>

text \<open>
  IEEE 754 binary64, round to nearest, ties to even. \<open>rne\<close> rounds a real to the nearest
  integer, ties to the even one. \<open>expo x\<close> is the exponent of the binade of \<open>x\<close>, that is
  the \<open>e\<close> with \<open>2^e \<le> |x| < 2^(e+1)\<close>, kept within \<open>-1022\<close> (below it the doubles are
  subnormal and equally spaced) and \<open>1023\<close>; it is found by a search from the top. A double
  of that binade is a multiple of \<open>2^(e-52)\<close>, and \<open>fl64 x\<close> is the nearest such multiple.
\<close>

definition rne :: "real \<Rightarrow> int" where
  "rne y =
     (let n = \<lfloor>y\<rfloor>; r = y - of_int n
      in if r < 1 / 2 then n
         else if 1 / 2 < r then n + 1
         else if even n then n else n + 1)"

fun expo_search :: "nat \<Rightarrow> real \<Rightarrow> int" where
  "expo_search 0 a = - 1022"
| "expo_search (Suc k) a =
     (if 2 powi (int k - 1021) \<le> a then int k - 1021 else expo_search k a)"

definition expo :: "real \<Rightarrow> int" where
  "expo x = expo_search 2045 \<bar>x\<bar>"

definition fl64 :: "real \<Rightarrow> real" where
  "fl64 x = of_int (rne (x / 2 powi (expo x - 52))) * 2 powi (expo x - 52)"

subsection \<open>Printing and reading back\<close>

text \<open>
  \<open>x.toFixed(4)\<close>, as the number its digits denote: \<open>toFixed\<close> takes the sign off, picks
  the integer \<open>n\<close> with \<open>n / 10^4\<close> nearest to the exact magnitude of the double (the
  larger one on a tie), and prints the number itself from \<open>10^21\<close> on.
\<close>

definition toFixed4 :: "real \<Rightarrow> real" where
  "toFixed4 x =
     (if 10 ^ 21 \<le> \<bar>x\<bar> then x
      else if x < 0 then - (of_int \<lfloor>(- x) * 10000 + 1 / 2\<rfloor> / 10000)
      else of_int \<lfloor>x * 10000 + 1 / 2\<rfloor> / 10000)"

text \<open>\<open>parseFloat\<close> reads a decimal as the nearest double.\<close>

definition parseFloat :: "real \<Rightarrow> real" where
  "parseFloat v = fl64 v"

section \<open>External collaborators\<close>

text \<open>
  The account store (\<open>axios.request\<close>), the image library (\<open>sharp\<close>, \<open>canvas.loadImage\<close>)
  and the embedding provider (\<open>faceapi\<close>) are not code of this repository; they are
  parameters, each of which may throw. \<open>'b\<close> is a byte buffer, \<open>'i\<close> a loaded image and
  \<open>'d\<close> a face descriptor.
\<close>

record ('b, 'i, 'd) env =
  axios_request :: "string \<Rightarrow> string + json"
  buffer_from_base64 :: "string \<Rightarrow> 'b"
  sharp_face :: "'b \<Rightarrow> string + 'b"
  loadImage :: "'b \<Rightarrow> string + 'i"
  detectSingleFace :: "'i \<Rightarrow> string + 'd option"
  euclideanDistance :: "'d \<Rightarrow> 'd \<Rightarrow> string + real"

section \<open>fetchAccountData\<close>

text \<open>The per-item validation loop of \<open>fetchAccountData\<close>.\<close>

fun check_items :: "json list \<Rightarrow> string + unit" where
  "check_items [] = Inr ()"
| "check_items (item # rest) =
     (case get_prop (Some item) ''photo'' of
        Inl e \<Rightarrow> Inl e
      | Inr photo \<Rightarrow>
          if \<not> truthy photo
          then Inl ''Invalid response format from external API: photo or signature missing in approved item''
          else (case get_prop (Some item) ''signature'' of
                  Inl e \<Rightarrow> Inl e
                | Inr signature \<Rightarrow>
                    if \<not> truthy signature
                    then Inl ''Invalid response format from external API: photo or signature missing in approved item''
                    else check_items rest))"

text \<open>
  \<open>fetchAccountData\<close>: the \<open>catch\<close> logs and rethrows, so every failure leaves as the
  error it was raised with.
\<close>

definition fetchAccountData :: "('b, 'i, 'd) env \<Rightarrow> string \<Rightarrow> string + json list" where
  "fetchAccountData env accountNumber =
     (case axios_request env (''http://10.203.14.169/imaging/get_account_signature-'' @ accountNumber) of
        Inl e \<Rightarrow> Inl e
      | Inr data \<Rightarrow>
          (case get_prop (Some data) ''approved'' of
             Inl e \<Rightarrow> Inl e
           | Inr approved \<Rightarrow>
               (case approved of
                  Some (JArr items) \<Rightarrow>
                    if length items = 0
                    then Inl ''Invalid response format from external API: approved array is missing or empty''
                    else (case check_items items of
                            Inl e \<Rightarrow> Inl e
                          | Inr u \<Rightarrow> Inr items)
                | _ \<Rightarrow> Inl ''Invalid response format from external API: approved array is missing or empty'')))"

section \<open>The face-comparison handler\<close>

record match_result =
  faceUrl :: string
  isMatch :: bool
  similarity :: real

datatype response =
    ErrorResponse nat string "string option"
  | Outcome bool real "match_result list"

record 'b request =
  accountNumber :: "string option"
  livePhoto :: "'b option"

text \<open>
  Resize and normalise with \<open>sharp\<close>, load with \<open>canvas\<close>, detect the single most
  confident face: the handler runs these three steps on the live photo and again on each
  stored photo.
\<close>

definition detect_face :: "('b, 'i, 'd) env \<Rightarrow> 'b \<Rightarrow> string + 'd option" where
  "detect_face env buf =
     (case sharp_face env buf of
        Inl e \<Rightarrow> Inl e
      | Inr resized \<Rightarrow>
          (case loadImage env resized of
             Inl e \<Rightarrow> Inl e
           | Inr img \<Rightarrow> detectSingleFace env img))"

text \<open>
  \<open>Buffer.from(faceUrl.split(',')[1], 'base64')\<close>: a photo that is no string has no
  \<open>split\<close>, and \<open>Buffer.from(undefined, ...)\<close> throws.
\<close>

definition stored_photo_buffer :: "('b, 'i, 'd) env \<Rightarrow> json option \<Rightarrow> string + (string \<times> 'b)" where
  "stored_photo_buffer env photo =
     (case photo of
        Some (JStr url) \<Rightarrow>
          (case split_comma_1 url of
             None \<Rightarrow> Inl ''TypeError: The first argument must be of type string or an instance of Buffer''
           | Some b64 \<Rightarrow> Inr (url, buffer_from_base64 env b64))
      | _ \<Rightarrow> Inl ''TypeError: faceUrl.split is not a function'')"

text \<open>
  The loop over the stored photos. \<open>faceResults\<close>, \<open>bestSimilarity\<close> and \<open>isMatch\<close> are
  the handler's three accumulators; an exception leaves the loop at once. The local
  \<open>similarity\<close> is the double \<open>fl64 (1 - distance)\<close>; the Match Result holds
  \<open>parseFloat(similarity.toFixed(4))\<close>.
\<close>

fun candidate_loop ::
  "('b, 'i, 'd) env \<Rightarrow> 'd \<Rightarrow> json list \<Rightarrow> match_result list \<Rightarrow> real \<Rightarrow> bool
     \<Rightarrow> string + (match_result list \<times> real \<times> bool)" where
  "candidate_loop env liveDescriptor [] faceResults bestSimilarity isMatch' =
     Inr (faceResults, bestSimilarity, isMatch')"
| "candidate_loop env liveDescriptor (item # rest) faceResults bestSimilarity isMatch' =
     (case get_prop (Some item) ''photo'' of
        Inl e \<Rightarrow> Inl e
      | Inr photo \<Rightarrow>
     (case stored_photo_buffer env photo of
        Inl e \<Rightarrow> Inl e
      | Inr (url, storedPhotoBuffer) \<Rightarrow>
     (case detect_face env storedPhotoBuffer of
        Inl e \<Rightarrow> Inl e
      | Inr None \<Rightarrow>
          candidate_loop env liveDescriptor rest
            (faceResults @ [\<lparr>faceUrl = url, isMatch = False, similarity = 0\<rparr>])
            bestSimilarity isMatch'
      | Inr (Some storedDescriptor) \<Rightarrow>
     (case euclideanDistance env liveDescriptor storedDescriptor of
        Inl e \<Rightarrow> Inl e
      | Inr distance \<Rightarrow>
          candidate_loop env liveDescriptor rest
            (faceResults @ [\<lparr>faceUrl = url, isMatch = (distance < 0.5),
                             similarity = parseFloat (toFixed4 (fl64 (1 - distance)))\<rparr>])
            (if fl64 (1 - distance) > bestSimilarity then fl64 (1 - distance)
             else bestSimilarity)
            (if distance < 0.5 then True else isMatch')))))"

text \<open>The handler of \<open>POST /compare-faces\<close>.\<close>

definition compare_faces :: "('b, 'i, 'd) env \<Rightarrow> 'b request \<Rightarrow> response" where
  "compare_faces env req =
     (case (accountNumber req, livePhoto req) of
        (Some acct, Some livePhotoBuffer) \<Rightarrow>
          if acct = [] then ErrorResponse 400 ''accountNumber and livePhoto are required'' None
          else
            (case fetchAccountData env acct of
               Inl e \<Rightarrow> ErrorResponse 500 ''Failed to compare faces'' (Some e)
             | Inr accountData \<Rightarrow>
            (case detect_face env livePhotoBuffer of
               Inl e \<Rightarrow> ErrorResponse 500 ''Failed to compare faces'' (Some e)
             | Inr None \<Rightarrow> ErrorResponse 400 ''No face detected in the live photo'' None
             | Inr (Some liveDescriptor) \<Rightarrow>
            (case candidate_loop env liveDescriptor accountData [] 0 False of
               Inl e \<Rightarrow> ErrorResponse 500 ''Failed to compare faces'' (Some e)
             | Inr (faceResults, bestSimilarity, isMatch') \<Rightarrow>
                 Outcome isMatch' (parseFloat (toFixed4 bestSimilarity)) faceResults)))
      | _ \<Rightarrow> ErrorResponse 400 ''accountNumber and livePhoto are required'' None)"

text \<open>
  The Match Result of one candidate, read off the specification: it depends on the live
  descriptor and on that candidate alone. A candidate with no detectable face is a result
  (no match, similarity 0); an exception while decoding, loading, detecting or measuring
  is \<open>Inl\<close>. The loop above is compared with it below.
\<close>

definition candidate_result :: "('b, 'i, 'd) env \<Rightarrow> 'd \<Rightarrow> json \<Rightarrow> string + match_result" where
  "candidate_result env liveDescriptor item =
     (case get_prop (Some item) ''photo'' of
        Inl e \<Rightarrow> Inl e
      | Inr photo \<Rightarrow>
     (case stored_photo_buffer env photo of
        Inl e \<Rightarrow> Inl e
      | Inr (url, storedPhotoBuffer) \<Rightarrow>
     (case detect_face env storedPhotoBuffer of
        Inl e \<Rightarrow> Inl e
      | Inr None \<Rightarrow> Inr \<lparr>faceUrl = url, isMatch = False, similarity = 0\<rparr>
      | Inr (Some storedDescriptor) \<Rightarrow>
     (case euclideanDistance env liveDescriptor storedDescriptor of
        Inl e \<Rightarrow> Inl e
      | Inr distance \<Rightarrow>
          Inr \<lparr>faceUrl = url, isMatch = (distance < 0.5),
               similarity = parseFloat (toFixed4 (fl64 (1 - distance)))\<rparr>))))"

section \<open>The signature comparator\<close>

text \<open>
  \<open>sharp(...).resize(300, 150).grayscale().raw().toBuffer({resolveWithObject: true})\<close>
  yields the raw bytes and the dimensions. The same handler stands in both
  \<open>combined-server.js\<close> and \<open>server.js\<close>.
\<close>

record raw_image =
  data :: "8 word list"
  width :: nat
  height :: nat

text \<open>\<open>buf[i]\<close>: the byte as a number, \<open>undefined\<close> past the end of the buffer.\<close>

definition buf_at :: "8 word list \<Rightarrow> nat \<Rightarrow> real option" where
  "buf_at d i = (if i < length d then Some (real (unat (d ! i))) else None)"

text \<open>
  The pixel loop. The running \<open>difference\<close> is \<open>None\<close> once it is \<open>NaN\<close>, which an
  \<open>undefined\<close> operand makes it and which no later addition undoes. The loop counter
  and \<open>pixelCount\<close> are integers far below \<open>2^53\<close>, which doubles hold exactly.
\<close>

function pixel_loop ::
  "raw_image \<Rightarrow> raw_image \<Rightarrow> nat \<Rightarrow> nat \<Rightarrow> real option \<Rightarrow> real option" where
  "pixel_loop img1 img2 pixelCount i difference =
     (if i < pixelCount
      then pixel_loop img1 img2 pixelCount (i + 1)
             (case (difference, buf_at (data img1) i, buf_at (data img2) i) of
                (Some d, Some p1, Some p2) \<Rightarrow> Some (fl64 (d + \<bar>fl64 (p1 - p2)\<bar>))
              | _ \<Rightarrow> None)
      else difference)"
  by pat_completeness auto
termination
  by (relation "measure (\<lambda>(img1, img2, pixelCount, i, difference). pixelCount - i)") auto

declare pixel_loop.simps [simp del]

text \<open>
  \<open>1 - (difference / maxDifference)\<close>, the quotient and the difference each rounded.
  With no pixels the loop leaves \<open>difference\<close> at 0 and the quotient is \<open>0 / 0\<close>, that
  is \<open>NaN\<close>.
\<close>

definition signature_similarity :: "raw_image \<Rightarrow> raw_image \<Rightarrow> real option" where
  "signature_similarity img1 img2 =
     (let pixelCount = width img1 * height img1;
          difference = pixel_loop img1 img2 pixelCount 0 (Some 0);
          maxDifference = fl64 (real pixelCount * 255)
      in case difference of
           None \<Rightarrow> None
         | Some d \<Rightarrow>
             if maxDifference = 0 then None
             else Some (fl64 (1 - fl64 (d / maxDifference))))"

text \<open>
  The response carries \<open>similarity.toFixed(4)\<close>, a decimal string; \<open>SigSimilarity\<close> holds
  the number that string denotes (\<open>None\<close> for \<open>"NaN"\<close>).
\<close>

datatype sig_response =
    SigError nat string "string option"
  | SigSimilarity "real option"

text \<open>
  The handler of \<open>POST /compare-signatures\<close>; \<open>sharp_signature\<close> is the image library.
  Both images are converted under one \<open>Promise.all\<close>; when both conversions fail, the
  message reported here is the first one's.
\<close>

definition compare_signatures ::
  "('b \<Rightarrow> string + raw_image) \<Rightarrow> 'b option \<Rightarrow> 'b option \<Rightarrow> sig_response" where
  "compare_signatures sharp_signature signature1 signature2 =
     (case (signature1, signature2) of
        (Some s1, Some s2) \<Rightarrow>
          (case sharp_signature s1 of
             Inl e \<Rightarrow> SigError 500 ''Failed to compare signatures'' (Some e)
           | Inr img1 \<Rightarrow>
          (case sharp_signature s2 of
             Inl e \<Rightarrow> SigError 500 ''Failed to compare signatures'' (Some e)
           | Inr img2 \<Rightarrow>
               if width img1 \<noteq> width img2 \<or> height img1 \<noteq> height img2
               then SigError 400 ''Images must have the same dimensions after resizing'' None
               else SigSimilarity (map_option toFixed4 (signature_similarity img1 img2))))
      | _ \<Rightarrow> SigError 400 ''Two signature images are required'' None)"

text \<open>
  The specification's formula, \<open>1 - (\<Sum>|p1\<^sub>i - p2\<^sub>i|) / (pixelCount \<times> 255)\<close>, over
  the pixels as numbers.
\<close>

definition pixel :: "raw_image \<Rightarrow> nat \<Rightarrow> real" where
  "pixel img i = real (unat (data img ! i))"

text \<open>The same byte as an integer, for counting.\<close>

definition ipixel :: "raw_image \<Rightarrow> nat \<Rightarrow> int" where
  "ipixel img i = int (unat (data img ! i))"

definition similarity_formula :: "raw_image \<Rightarrow> raw_image \<Rightarrow> real" where
  "similarity_formula img1 img2 =
     1 - (\<Sum>i < width img1 * height img1. \<bar>pixel img1 i - pixel img2 i\<bar>)
         / (real (width img1 * height img1) * 255)"

section \<open>Sample inputs\<close>

text \<open>
  A small world to run the handlers in: buffers and images are named by their base64 text,
  a descriptor is a vector of length one (so the Euclidean distance is \<open>|a - b|\<close>), the
  image library rejects the buffer \<open>corrupt\<close>, and the account store answers every
  account with the given reply. The descriptors are doubles with few bits, so that the
  distances to the live descriptor 0 are exact.
\<close>

definition photo_url :: "string \<Rightarrow> string" where
  "photo_url b64 = ''data:image/jpeg;base64,'' @ b64"

definition approved_item :: "string \<Rightarrow> json" where
  "approved_item b64 =
     JObj [(''photo'', JStr (photo_url b64)),
           (''signature'', JStr ''data:image/png;base64,c2ln'')]"

definition account_reply :: "string list \<Rightarrow> json" where
  "account_reply photos = JObj [(''approved'', JArr (map approved_item photos))]"

definition sample_faces :: "string \<Rightarrow> real option" where
  "sample_faces img =
     (if img = ''live'' then Some 0
      else if img = ''near'' then Some (1 / 4)
      else if img = ''far'' then Some (3 / 2)
      else if img = ''unit'' then Some 1
      else if img = ''odd'' then Some (262143 / 1048576)
      else None)"

definition sample_env :: "json \<Rightarrow> (string \<Rightarrow> real option) \<Rightarrow> (string, string, real) env" where
  "sample_env reply faces =
     \<lparr>axios_request = (\<lambda>url. Inr reply),
      buffer_from_base64 = (\<lambda>s. s),
      sharp_face = (\<lambda>b. if b = ''corrupt''
                          then Inl ''Input buffer contains unsupported image format''
                          else Inr b),
      loadImage = (\<lambda>b. Inr b),
      detectSingleFace = (\<lambda>img. Inr (faces img)),
      euclideanDistance = (\<lambda>a b. Inr \<bar>a - b\<bar>)\<rparr>"

definition sample_request :: "string \<Rightarrow> string request" where
  "sample_request photo = \<lparr>accountNumber = Some ''0012345'', livePhoto = Some photo\<rparr>"

definition gray :: "nat \<Rightarrow> nat \<Rightarrow> 8 word list \<Rightarrow> raw_image" where
  "gray w h d = \<lparr>data = d, width = w, height = h\<rparr>"

text \<open>A canonical signature raster (300 by 150) of one gray level.\<close>

definition uniform :: "8 word \<Rightarrow> raw_image" where
  "uniform c = \<lparr>data = replicate 45000 c, width = 300, height = 150\<rparr>"

section \<open>Double-precision rounding\<close>

lemma rne_of_int [simp]: "rne (of_int k) = k"
  by (simp add: rne_def)

lemma rne_zero [simp]: "rne 0 = 0"
  by (simp add: rne_def)

lemma rne_err: "\<bar>of_int (rne y) - y\<bar> \<le> 1 / 2"
  unfolding rne_def Let_def by (auto; linarith)

lemma rne_mono: "x \<le> y \<Longrightarrow> rne x \<le> rne y"
proof -
  assume xy: "x \<le> y"
  have fl: "\<lfloor>x\<rfloor> \<le> \<lfloor>y\<rfloor>" using xy by (rule floor_mono)
  show ?thesis
  proof (cases "\<lfloor>x\<rfloor> = \<lfloor>y\<rfloor>")
    case True
    then show ?thesis using xy unfolding rne_def Let_def by auto
  next
    case False
    with fl have "\<lfloor>x\<rfloor> + 1 \<le> \<lfloor>y\<rfloor>" by simp
    moreover have "rne x \<le> \<lfloor>x\<rfloor> + 1" unfolding rne_def Let_def by auto
    moreover have "\<lfloor>y\<rfloor> \<le> rne y" unfolding rne_def Let_def by auto
    ultimately show ?thesis by linarith
  qed
qed

lemma rne_minus: "rne (- y) = - rne y"
proof (cases "y \<in> \<int>")
  case True
  then obtain k where "y = of_int k" by (auto elim: Ints_cases)
  then have "- y = of_int (- k)" by simp
  then show ?thesis using \<open>y = of_int k\<close> by (simp only: rne_of_int)
next
  case False
  then have ne: "y \<noteq> of_int \<lfloor>y\<rfloor>" by (metis Ints_of_int)
  then have fl: "\<lfloor>- y\<rfloor> = - \<lfloor>y\<rfloor> - 1"
    by (simp add: floor_minus ceiling_altdef)
  show ?thesis unfolding rne_def Let_def fl by (auto; linarith)
qed

lemma expo_search_bounds: "- 1022 \<le> expo_search k a \<and> expo_search k a \<le> int k - 1022"
  by (induction k) auto

lemma expo_search_lower: "- 1022 < expo_search k a \<Longrightarrow> 2 powi (expo_search k a) \<le> a"
  by (induction k) (auto split: if_splits)

lemma expo_search_upper:
  "expo_search k a < int k - 1022 \<Longrightarrow> a < 2 powi (expo_search k a + 1)"
proof (induction k)
  case 0
  then show ?case by simp
next
  case (Suc k)
  show ?case
  proof (cases "2 powi (int k - 1021) \<le> a")
    case True
    with Suc.prems show ?thesis by simp
  next
    case False
    show ?thesis
    proof (cases "expo_search k a < int k - 1022")
      case True
      with False Suc.IH show ?thesis by simp
    next
      case False
      with expo_search_bounds [of k a] have "expo_search k a = int k - 1022" by linarith
      then have "expo_search (Suc k) a + 1 = int k - 1021"
        using \<open>\<not> 2 powi (int k - 1021) \<le> a\<close> by simp
      with \<open>\<not> 2 powi (int k - 1021) \<le> a\<close> show ?thesis by (simp only:)
    qed
  qed
qed

lemma expo_bounds: "- 1022 \<le> expo x \<and> expo x \<le> 1023"
  using expo_search_bounds [of 2045 "\<bar>x\<bar>"] by (simp add: expo_def)

lemma expo_lower: "- 1022 < expo x \<Longrightarrow> 2 powi (expo x) \<le> \<bar>x\<bar>"
  unfolding expo_def by (rule expo_search_lower)

lemma expo_upper: "expo x < 1023 \<Longrightarrow> \<bar>x\<bar> < 2 powi (expo x + 1)"
  using expo_search_upper [of 2045 "\<bar>x\<bar>"] by (simp add: expo_def)

lemma expo_minus [simp]: "expo (- x) = expo x"
  by (simp add: expo_def)

lemma expo_mono: "\<bar>x\<bar> \<le> \<bar>y\<bar> \<Longrightarrow> expo x \<le> expo y"
proof (rule ccontr)
  assume xy: "\<bar>x\<bar> \<le> \<bar>y\<bar>" and "\<not> expo x \<le> expo y"
  then have lt: "expo y < expo x" by simp
  with expo_bounds [of x] expo_bounds [of y] have "- 1022 < expo x" "expo y < 1023" by linarith+
  then have "2 powi (expo x) \<le> \<bar>x\<bar>" "\<bar>y\<bar> < 2 powi (expo y + 1)"
    by (simp_all add: expo_lower expo_upper)
  moreover have "(2::real) powi (expo y + 1) \<le> 2 powi (expo x)"
    using lt by (intro power_int_increasing) simp_all
  ultimately show False using xy by linarith
qed

lemma expo_eqI:
  assumes "2 powi e \<le> \<bar>x\<bar>" and "\<bar>x\<bar> < 2 powi (e + 1)" and "- 1022 \<le> e" and "e \<le> 1023"
  shows "expo x = e"
proof (rule antisym)
  show "expo x \<le> e"
  proof (rule ccontr)
    assume "\<not> expo x \<le> e"
    then have lt: "e + 1 \<le> expo x" by simp
    with assms(3) have "2 powi (expo x) \<le> \<bar>x\<bar>" by (intro expo_lower) simp
    moreover have "(2::real) powi (e + 1) \<le> 2 powi (expo x)"
      using lt by (intro power_int_increasing) simp_all
    ultimately show False using assms(2) by linarith
  qed
  show "e \<le> expo x"
  proof (rule ccontr)
    assume "\<not> e \<le> expo x"
    then have lt: "expo x + 1 \<le> e" by simp
    with assms(4) have "\<bar>x\<bar> < 2 powi (expo x + 1)" by (intro expo_upper) simp
    moreover have "(2::real) powi (expo x + 1) \<le> 2 powi e"
      using lt by (intro power_int_increasing) simp_all
    ultimately show False using assms(1) by linarith
  qed
qed

text \<open>
  The value itself, its sign and its order are kept by the rounding; a value that is a
  multiple of the spacing of its binade is a double and is left alone; the error is at
  most half the spacing.
\<close>

lemma two_powi_split: "k = m + n \<Longrightarrow> (2::real) powi k = 2 powi m * 2 powi n"
  by (simp add: power_int_add)

lemma fl64_zero [simp]: "fl64 0 = 0"
  by (simp add: fl64_def)

lemma fl64_minus: "fl64 (- x) = - fl64 x"
  by (simp add: fl64_def rne_minus)

lemma fl64_nonneg: "0 \<le> x \<Longrightarrow> 0 \<le> fl64 x"
proof -
  assume "0 \<le> x"
  then have "rne 0 \<le> rne (x / 2 powi (expo x - 52))" by (intro rne_mono) simp
  then have "0 \<le> rne (x / 2 powi (expo x - 52))" by simp
  then show ?thesis by (simp add: fl64_def)
qed

lemma fl64_nonpos: "x \<le> 0 \<Longrightarrow> fl64 x \<le> 0"
  using fl64_nonneg [of "- x"] by (simp add: fl64_minus)

lemma fl64_exact: "x / 2 powi (expo x - 52) \<in> \<int> \<Longrightarrow> fl64 x = x"
proof -
  assume "x / 2 powi (expo x - 52) \<in> \<int>"
  then obtain z where z: "x / 2 powi (expo x - 52) = of_int z" by (auto elim: Ints_cases)
  then have "x = of_int z * 2 powi (expo x - 52)" by (simp add: nonzero_divide_eq_eq)
  with z show ?thesis by (simp add: fl64_def)
qed

lemma fl64_err_quantum: "\<bar>fl64 x - x\<bar> \<le> 2 powi (expo x - 52) / 2"
proof -
  let ?q = "(2::real) powi (expo x - 52)"
  have q: "0 < ?q" by simp
  have "fl64 x - x = (of_int (rne (x / ?q)) - x / ?q) * ?q"
    using q by (simp add: fl64_def algebra_simps)
  then have "\<bar>fl64 x - x\<bar> = \<bar>of_int (rne (x / ?q)) - x / ?q\<bar> * ?q"
    using q by (simp add: abs_mult)
  also have "\<dots> \<le> (1 / 2) * ?q"
    using q rne_err [of "x / ?q"] by (intro mult_right_mono) simp_all
  finally show ?thesis by simp
qed

lemma half_quantum: "(2::real) powi (e - 52) / 2 = 2 powi e / 2 ^ 53"
proof -
  have "(2::real) powi e = 2 powi (e - 52) * 2 powi 52"
    by (rule two_powi_split) simp
  then show ?thesis by simp
qed

lemma fl64_err: "\<bar>fl64 x - x\<bar> \<le> \<bar>x\<bar> / 2 ^ 53 + 2 powi (- 1075)"
proof (cases "expo x = - 1022")
  case True
  have "(2::real) powi (expo x - 52) / 2 = 2 powi (- 1075)"
    unfolding True
    by (simp add: power_int_minus field_simps)
  with fl64_err_quantum [of x] have "\<bar>fl64 x - x\<bar> \<le> 2 powi (- 1075)" by simp
  moreover have "0 \<le> \<bar>x\<bar> / 2 ^ 53" by simp
  ultimately show ?thesis by linarith
next
  case False
  with expo_bounds [of x] have "- 1022 < expo x" by linarith
  then have "2 powi (expo x) \<le> \<bar>x\<bar>" by (rule expo_lower)
  then have "2 powi (expo x) / 2 ^ 53 \<le> \<bar>x\<bar> / 2 ^ 53" by (simp add: divide_right_mono)
  with fl64_err_quantum [of x] have "\<bar>fl64 x - x\<bar> \<le> \<bar>x\<bar> / 2 ^ 53"
    by (simp only: half_quantum)
  moreover have "(0::real) \<le> 2 powi (- 1075)" by simp
  ultimately show ?thesis by linarith
qed

lemma fl64_mono_nonneg:
  assumes "0 \<le> x" and "x \<le> y"
  shows "fl64 x \<le> fl64 y"
proof -
  have le: "expo x \<le> expo y" using assms by (intro expo_mono) simp
  show ?thesis
  proof (cases "expo x = expo y")
    case True
    have "x / 2 powi (expo y - 52) \<le> y / 2 powi (expo y - 52)"
      using assms(2) by (simp add: divide_right_mono)
    then have "rne (x / 2 powi (expo y - 52)) \<le> rne (y / 2 powi (expo y - 52))"
      by (rule rne_mono)
    then show ?thesis by (simp add: fl64_def True)
  next
    case False
    with le have lt: "expo x < expo y" by simp
    let ?qx = "(2::real) powi (expo x - 52)" and ?qy = "(2::real) powi (expo y - 52)"
    have bx: "expo x < 1023" and by': "- 1022 < expo y"
      using lt expo_bounds [of x] expo_bounds [of y] by linarith+
    have "\<bar>x\<bar> < 2 powi (expo x + 1)" using bx by (rule expo_upper)
    then have "x \<le> 2 powi (expo x + 1)" by linarith
    moreover have ex: "(2::real) powi (expo x + 1) = 2 ^ 53 * ?qx"
      using two_powi_split [of "expo x + 1" 53 "expo x - 52"] by simp
    ultimately have "x / ?qx \<le> of_int (2 ^ 53)" by (simp add: pos_divide_le_eq)
    then have "rne (x / ?qx) \<le> rne (of_int (2 ^ 53))" by (rule rne_mono)
    then have "rne (x / ?qx) \<le> 2 ^ 53" by (simp only: rne_of_int)
    then have "real_of_int (rne (x / ?qx)) \<le> 2 ^ 53"
      by (metis of_int_le_iff of_int_numeral of_int_power)
    then have "real_of_int (rne (x / ?qx)) * ?qx \<le> 2 ^ 53 * ?qx"
      by (intro mult_right_mono) simp_all
    then have up: "fl64 x \<le> 2 powi (expo x + 1)"
      using ex by (simp add: fl64_def)
    have "2 powi (expo y) \<le> \<bar>y\<bar>" using by' by (rule expo_lower)
    moreover have "0 \<le> y" using assms by linarith
    ultimately have "2 powi (expo y) \<le> y" by simp
    moreover have ey: "(2::real) powi (expo y) = 2 ^ 52 * ?qy"
      using two_powi_split [of "expo y" 52 "expo y - 52"] by simp
    ultimately have "of_int (2 ^ 52) \<le> y / ?qy" by (simp add: pos_le_divide_eq)
    then have "rne (of_int (2 ^ 52)) \<le> rne (y / ?qy)" by (rule rne_mono)
    then have "2 ^ 52 \<le> rne (y / ?qy)" by (simp only: rne_of_int)
    then have "2 ^ 52 \<le> real_of_int (rne (y / ?qy))"
      by (metis of_int_le_iff of_int_numeral of_int_power)
    then have "2 ^ 52 * ?qy \<le> real_of_int (rne (y / ?qy)) * ?qy"
      by (intro mult_right_mono) simp_all
    then have low: "2 powi (expo y) \<le> fl64 y" using ey by (simp add: fl64_def)
    have "(2::real) powi (expo x + 1) \<le> 2 powi (expo y)"
      using lt by (intro power_int_increasing) simp_all
    with up low show ?thesis by linarith
  qed
qed

lemma fl64_mono: "x \<le> y \<Longrightarrow> fl64 x \<le> fl64 y"
proof -
  assume xy: "x \<le> y"
  consider "0 \<le> x" | "x < 0" "0 \<le> y" | "x < 0" "y < 0" by linarith
  then show ?thesis
  proof cases
    case 1
    then show ?thesis using xy by (rule fl64_mono_nonneg)
  next
    case 2
    then have "fl64 x \<le> 0" "0 \<le> fl64 y" by (simp_all add: fl64_nonpos fl64_nonneg)
    then show ?thesis by linarith
  next
    case 3
    then have "fl64 (- y) \<le> fl64 (- x)" using xy by (intro fl64_mono_nonneg) simp_all
    then show ?thesis by (simp add: fl64_minus)
  qed
qed

lemma fl64_one [simp]: "fl64 1 = 1"
proof -
  have "expo 1 = 0" by (rule expo_eqI) simp_all
  then show ?thesis by (intro fl64_exact) (simp add: power_int_minus)
qed

lemma fl64_dyadic:
  assumes "2 powi e \<le> \<bar>x\<bar>" and "\<bar>x\<bar> < 2 powi (e + 1)" and "- 1022 \<le> e" and "e \<le> 1023"
    and "x / 2 powi (e - 52) \<in> \<int>"
  shows "fl64 x = x"
proof -
  from assms(1-4) have "expo x = e" by (rule expo_eqI)
  with assms(5) show ?thesis by (intro fl64_exact) simp
qed

lemma fl64_of_int:
  assumes "\<bar>k\<bar> \<le> 2 ^ 53"
  shows "fl64 (of_int k) = of_int k"
proof (cases "k = 0")
  case True
  then show ?thesis by simp
next
  case False
  let ?e = "expo (of_int k)"
  have k1: "(1::real) \<le> \<bar>of_int k\<bar>" using False by (simp flip: of_int_abs)
  have "expo 1 \<le> ?e" using k1 by (intro expo_mono) simp
  moreover have "expo 1 = 0" by (rule expo_eqI) simp_all
  ultimately have e0: "0 \<le> ?e" by simp
  then have "2 powi ?e \<le> \<bar>real_of_int k\<bar>" by (intro expo_lower) simp
  moreover have "\<bar>real_of_int k\<bar> \<le> 2 ^ 53"
    using assms by (metis of_int_abs of_int_le_iff of_int_numeral of_int_power)
  ultimately have "(2::real) powi ?e \<le> 2 powi 53" by simp
  then have e53: "?e \<le> 53" by (rule power_int_le_imp_le_exp [rotated]) simp_all
  show ?thesis
  proof (cases "?e = 53")
    case True
    have "2 powi ?e \<le> \<bar>real_of_int k\<bar>" using e0 by (intro expo_lower) simp
    with \<open>\<bar>real_of_int k\<bar> \<le> 2 ^ 53\<close> True have "\<bar>real_of_int k\<bar> = 2 ^ 53" by simp
    then have "real_of_int k = 2 ^ 53 \<or> real_of_int k = - (2 ^ 53)" by linarith
    then have "real_of_int k / 2 powi (?e - 52) \<in> \<int>"
      unfolding True by auto
    then show ?thesis by (rule fl64_exact)
  next
    case False
    with e53 have "0 \<le> 52 - ?e" by simp
    then have "(2::real) powi (52 - ?e) = of_int (2 ^ nat (52 - ?e))"
      by (simp add: power_int_def)
    moreover have "real_of_int k / 2 powi (?e - 52) = real_of_int k * 2 powi (52 - ?e)"
      using power_int_minus [of "2::real" "?e - 52"] by (simp add: field_simps)
    ultimately have "real_of_int k / 2 powi (?e - 52) = of_int (k * 2 ^ nat (52 - ?e))"
      by simp
    then have "real_of_int k / 2 powi (?e - 52) \<in> \<int>" by (simp only: Ints_of_int)
    then show ?thesis by (rule fl64_exact)
  qed
qed

lemma fl64_three_quarters: "fl64 (3 / 4) = 3 / 4"
  by (rule fl64_dyadic [where e = "- 1"]) simp_all

lemma fl64_quarter: "fl64 (1 / 4) = 1 / 4"
  by (rule fl64_dyadic [where e = "- 2"]) simp_all

lemma fl64_minus_half: "fl64 (- (1 / 2)) = - (1 / 2)"
  by (rule fl64_dyadic [where e = "- 1"]) simp_all

lemma fl64_odd: "fl64 (786433 / 1048576) = 786433 / 1048576"
  by (rule fl64_dyadic [where e = "- 1"]) simp_all

lemma fl64_eval:
  assumes "2 powi e \<le> \<bar>x\<bar>" and "\<bar>x\<bar> < 2 powi (e + 1)" and "- 1022 \<le> e" and "e \<le> 1023"
  shows "fl64 x = of_int (rne (x / 2 powi (e - 52))) * 2 powi (e - 52)"
proof -
  from assms have "expo x = e" by (rule expo_eqI)
  then show ?thesis by (simp add: fl64_def)
qed

text \<open>
  A tie that exact arithmetic does not see: \<open>1 - (2^-5 + 2^-57)\<close> rounds to the double
  \<open>0.96875\<close>, which \<open>toFixed(4)\<close> prints as \<open>0.9688\<close>, whereas the exact difference
  would print as \<open>0.9687\<close>.
\<close>

lemma tie_double:
  "toFixed4 (fl64 (1 - (1 / 2 ^ 5 + 1 / 2 ^ 57))) = 0.9688
   \<and> toFixed4 (1 - (1 / 2 ^ 5 + 1 / 2 ^ 57)) = 0.9687"
proof -
  have f: "fl64 (1 - (1 / 2 ^ 5 + 1 / 2 ^ 57)) = 31 / 32"
    by (subst fl64_eval [where e = "- 1"]) (simp_all add: rne_def)
  show ?thesis by (simp only: f) (simp add: toFixed4_def)
qed

section \<open>Rounding to four decimals\<close>

lemma toFixed4_zero: "toFixed4 0 = 0"
  by (simp add: toFixed4_def)

lemma toFixed4_nonneg: "0 \<le> x \<Longrightarrow> 0 \<le> toFixed4 x"
  by (simp add: toFixed4_def)

lemma toFixed4_nonpos: "x \<le> 0 \<Longrightarrow> toFixed4 x \<le> 0"
  by (auto simp add: toFixed4_def)

lemma round_half_mono:
  fixes x y :: real
  assumes "x \<le> y"
  shows "real_of_int \<lfloor>x * 10000 + 1 / 2\<rfloor> / 10000 \<le> real_of_int \<lfloor>y * 10000 + 1 / 2\<rfloor> / 10000"
proof -
  have "\<lfloor>x * 10000 + 1 / 2\<rfloor> \<le> \<lfloor>y * 10000 + 1 / 2\<rfloor>"
    using assms by (intro floor_mono) simp
  then show ?thesis by (simp add: divide_right_mono)
qed

lemma round_half_bound:
  fixes x :: real
  assumes "x < 10 ^ 21"
  shows "real_of_int \<lfloor>x * 10000 + 1 / 2\<rfloor> / 10000 \<le> 10 ^ 21"
proof -
  have "x * 10000 + 1 / 2 \<le> 10 ^ 25 + 1 / 2" using assms by simp
  then have "\<lfloor>x * 10000 + 1 / 2\<rfloor> \<le> \<lfloor>(10 ^ 25 + 1 / 2 :: real)\<rfloor>" by (rule floor_mono)
  also have "\<lfloor>(10 ^ 25 + 1 / 2 :: real)\<rfloor> = 10 ^ 25" by (simp add: floor_unique)
  finally have "real_of_int \<lfloor>x * 10000 + 1 / 2\<rfloor> \<le> real_of_int (10 ^ 25)" by (simp only: of_int_le_iff)
  then show ?thesis by simp
qed

lemma toFixed4_mono:
  assumes "x \<le> y"
  shows "toFixed4 x \<le> toFixed4 y"
proof -
  have pos: "(0::real) < 10 ^ 21" by simp
  consider (bb) "10 ^ 21 \<le> \<bar>x\<bar>" "10 ^ 21 \<le> \<bar>y\<bar>"
    | (bs) "10 ^ 21 \<le> \<bar>x\<bar>" "\<bar>y\<bar> < 10 ^ 21"
    | (sb) "\<bar>x\<bar> < 10 ^ 21" "10 ^ 21 \<le> \<bar>y\<bar>"
    | (ss) "\<bar>x\<bar> < 10 ^ 21" "\<bar>y\<bar> < 10 ^ 21"
    by linarith
  then show ?thesis
  proof cases
    case bb
    then show ?thesis using assms by (simp add: toFixed4_def)
  next
    case bs
    then have x: "x \<le> - (10 ^ 21)" using assms by linarith
    have "- (10 ^ 21) \<le> toFixed4 y"
    proof (cases "y < 0")
      case True
      have "real_of_int \<lfloor>(- y) * 10000 + 1 / 2\<rfloor> / 10000 \<le> 10 ^ 21"
        using bs by (intro round_half_bound) linarith
      then show ?thesis using True bs by (simp add: toFixed4_def)
    next
      case False
      then have "0 \<le> toFixed4 y" by (simp add: toFixed4_nonneg)
      then show ?thesis using pos by linarith
    qed
    moreover have "toFixed4 x = x" using bs by (simp add: toFixed4_def)
    ultimately show ?thesis using x by linarith
  next
    case sb
    then have y: "10 ^ 21 \<le> y" using assms by linarith
    have "toFixed4 x \<le> 10 ^ 21"
    proof (cases "x < 0")
      case True
      then have "toFixed4 x \<le> 0" by (simp add: toFixed4_nonpos)
      then show ?thesis using pos by linarith
    next
      case False
      have "real_of_int \<lfloor>x * 10000 + 1 / 2\<rfloor> / 10000 \<le> 10 ^ 21"
        using sb by (intro round_half_bound) linarith
      then show ?thesis using False sb by (simp add: toFixed4_def)
    qed
    moreover have "toFixed4 y = y" using sb by (simp add: toFixed4_def)
    ultimately show ?thesis using y by linarith
  next
    case ss
    show ?thesis
    proof (cases "x < 0")
      case xneg: True
      show ?thesis
      proof (cases "y < 0")
        case True
        have "real_of_int \<lfloor>(- y) * 10000 + 1 / 2\<rfloor> / 10000
              \<le> real_of_int \<lfloor>(- x) * 10000 + 1 / 2\<rfloor> / 10000"
          using assms by (intro round_half_mono) simp
        then show ?thesis using ss xneg True by (simp add: toFixed4_def)
      next
        case False
        have "toFixed4 x \<le> 0" using xneg by (simp add: toFixed4_nonpos)
        moreover have "0 \<le> toFixed4 y" using False by (simp add: toFixed4_nonneg)
        ultimately show ?thesis by linarith
      qed
    next
      case False
      then have "\<not> y < 0" using assms by linarith
      moreover have "real_of_int \<lfloor>x * 10000 + 1 / 2\<rfloor> / 10000
              \<le> real_of_int \<lfloor>y * 10000 + 1 / 2\<rfloor> / 10000"
        using assms by (rule round_half_mono)
      ultimately show ?thesis using ss False by (simp add: toFixed4_def)
    qed
  qed
qed

lemma toFixed4_max: "toFixed4 (max a b) = max (toFixed4 a) (toFixed4 b)"
  by (metis max.absorb1 max.absorb2 linear toFixed4_mono)

lemma toFixed4_one: "toFixed4 1 = 1"
  by (simp add: toFixed4_def)

lemma round4_zero: "parseFloat (toFixed4 0) = 0"
  by (simp add: parseFloat_def toFixed4_zero)

lemma round4_mono: "x \<le> y \<Longrightarrow> parseFloat (toFixed4 x) \<le> parseFloat (toFixed4 y)"
  unfolding parseFloat_def by (intro fl64_mono toFixed4_mono)

lemma round4_nonneg: "0 \<le> x \<Longrightarrow> 0 \<le> parseFloat (toFixed4 x)"
  using round4_mono [of 0 x] by (simp add: round4_zero)

lemma round4_max:
  "parseFloat (toFixed4 (max a b)) = max (parseFloat (toFixed4 a)) (parseFloat (toFixed4 b))"
  by (metis max.absorb1 max.absorb2 linear round4_mono)

section \<open>The candidate loop\<close>

text \<open>
  What a response that is a Verification Outcome says about the run that produced it.
\<close>

lemma compare_faces_OutcomeD:
  assumes "compare_faces env req = Outcome m b faces"
  obtains acct lb cands ld bs where
    "accountNumber req = Some acct" "acct \<noteq> []" "livePhoto req = Some lb"
    "fetchAccountData env acct = Inr cands" "detect_face env lb = Inr (Some ld)"
    "candidate_loop env ld cands [] 0 False = Inr (faces, bs, m)" "b = parseFloat (toFixed4 bs)"
  using assms
  by (auto simp add: compare_faces_def split: option.splits if_splits sum.splits prod.splits)

lemma loop_Cons_cases:
  assumes "candidate_loop env ld (item # rest) fr bs m = Inr out"
  obtains (no_face) photo url buf where
      "get_prop (Some item) ''photo'' = Inr photo"
      "stored_photo_buffer env photo = Inr (url, buf)"
      "detect_face env buf = Inr None"
      "candidate_loop env ld rest
         (fr @ [\<lparr>faceUrl = url, isMatch = False, similarity = 0\<rparr>]) bs m = Inr out"
  | (compared) photo url buf sd distance where
      "get_prop (Some item) ''photo'' = Inr photo"
      "stored_photo_buffer env photo = Inr (url, buf)"
      "detect_face env buf = Inr (Some sd)"
      "euclideanDistance env ld sd = Inr distance"
      "candidate_loop env ld rest
         (fr @ [\<lparr>faceUrl = url, isMatch = (distance < 0.5),
                 similarity = parseFloat (toFixed4 (fl64 (1 - distance)))\<rparr>])
         (if fl64 (1 - distance) > bs then fl64 (1 - distance) else bs)
         (if distance < 0.5 then True else m) = Inr out"
  using assms
  by (auto split: sum.splits option.splits prod.splits)

lemma loop_isMatch:
  "candidate_loop env ld items fr bs m = Inr (fr', bs', m') \<Longrightarrow>
   m = (\<exists>r\<in>set fr. isMatch r) \<Longrightarrow> m' = (\<exists>r\<in>set fr'. isMatch r)"
proof (induction items arbitrary: fr bs m)
  case Nil
  then show ?case by auto
next
  case (Cons item rest)
  from Cons.prems(1) show ?case
  proof (cases rule: loop_Cons_cases)
    case (no_face photo url buf)
    show ?thesis
      by (rule Cons.IH [OF no_face(4)]) (simp add: Cons.prems(2))
  next
    case (compared photo url buf sd distance)
    show ?thesis
      by (rule Cons.IH [OF compared(5)]) (auto simp add: Cons.prems(2))
  qed
qed

lemma loop_best_mono:
  "candidate_loop env ld items fr bs m = Inr (fr', bs', m') \<Longrightarrow> bs \<le> bs'"
proof (induction items arbitrary: fr bs m)
  case Nil
  then show ?case by simp
next
  case (Cons item rest)
  from Cons.prems(1) show ?case
  proof (cases rule: loop_Cons_cases)
    case (no_face photo url buf)
    then show ?thesis using Cons.IH by blast
  next
    case (compared photo url buf sd distance)
    from Cons.IH [OF compared(5)] show ?thesis by (simp split: if_splits)
  qed
qed

lemma Max_snoc:
  "Max (insert (0::real) (f ` set (xs @ [r]))) = max (Max (insert 0 (f ` set xs))) (f r)"
proof -
  have "insert 0 (f ` set (xs @ [r])) = insert (f r) (insert 0 (f ` set xs))" by auto
  then show ?thesis by (simp add: max.commute)
qed

lemma loop_best:
  "candidate_loop env ld items fr bs m = Inr (fr', bs', m') \<Longrightarrow>
   parseFloat (toFixed4 bs) = Max (insert 0 (similarity ` set fr)) \<Longrightarrow>
   parseFloat (toFixed4 bs') = Max (insert 0 (similarity ` set fr'))"
proof (induction items arbitrary: fr bs m)
  case Nil
  then show ?case by simp
next
  case (Cons item rest)
  from Cons.prems(1) show ?case
  proof (cases rule: loop_Cons_cases)
    case (no_face photo url buf)
    have "max (Max (insert 0 (similarity ` set fr))) 0 = Max (insert 0 (similarity ` set fr))"
      by (simp add: max.absorb1)
    then have "parseFloat (toFixed4 bs) =
      Max (insert 0 (similarity ` set (fr @ [\<lparr>faceUrl = url, isMatch = False, similarity = 0\<rparr>])))"
      using Cons.prems(2) by (simp only: Max_snoc) simp
    with no_face(4) show ?thesis by (rule Cons.IH)
  next
    case (compared photo url buf sd distance)
    have "(if fl64 (1 - distance) > bs then fl64 (1 - distance) else bs) = max bs (fl64 (1 - distance))"
      by simp
    then have "parseFloat (toFixed4 (if fl64 (1 - distance) > bs then fl64 (1 - distance) else bs)) =
      Max (insert 0 (similarity ` set (fr @ [\<lparr>faceUrl = url, isMatch = (distance < 0.5),
                 similarity = parseFloat (toFixed4 (fl64 (1 - distance)))\<rparr>])))"
      using Cons.prems(2) by (simp only: Max_snoc round4_max) simp
    with compared(5) show ?thesis by (rule Cons.IH)
  qed
qed

lemma loop_results:
  "candidate_loop env ld items fr bs m = Inr (fr', bs', m') \<Longrightarrow>
   \<exists>rs. fr' = fr @ rs \<and> map (candidate_result env ld) items = map Inr rs"
proof (induction items arbitrary: fr bs m)
  case Nil
  then show ?case by simp
next
  case (Cons item rest)
  from Cons.prems(1) show ?case
  proof (cases rule: loop_Cons_cases)
    case (no_face photo url buf)
    from Cons.IH [OF no_face(4)] obtain rs where
      rs: "fr' = (fr @ [\<lparr>faceUrl = url, isMatch = False, similarity = 0\<rparr>]) @ rs"
          "map (candidate_result env ld) rest = map Inr rs" by blast
    have "candidate_result env ld item = Inr \<lparr>faceUrl = url, isMatch = False, similarity = 0\<rparr>"
      using no_face by (simp add: candidate_result_def)
    with rs show ?thesis by simp
  next
    case (compared photo url buf sd distance)
    let ?r = "\<lparr>faceUrl = url, isMatch = (distance < 0.5), similarity = parseFloat (toFixed4 (fl64 (1 - distance)))\<rparr>"
    from Cons.IH [OF compared(5)] obtain rs where
      rs: "fr' = (fr @ [?r]) @ rs" "map (candidate_result env ld) rest = map Inr rs" by blast
    have "candidate_result env ld item = Inr ?r"
      using compared by (simp add: candidate_result_def)
    with rs show ?thesis by simp
  qed
qed

lemma loop_Cons_result:
  "(case candidate_result env ld item of
      Inl e \<Rightarrow> candidate_loop env ld (item # rest) fr bs m = Inl e
    | Inr r \<Rightarrow> (\<exists>bs' m'. candidate_loop env ld (item # rest) fr bs m =
                         candidate_loop env ld rest (fr @ [r]) bs' m'))"
  by (simp add: candidate_result_def split: sum.split option.split prod.split) blast

lemma loop_Cons_error:
  "candidate_result env ld item = Inl e \<Longrightarrow> candidate_loop env ld (item # rest) fr bs m = Inl e"
  using loop_Cons_result [of env ld item rest fr bs m] by simp

lemma loop_Cons_ok:
  "candidate_result env ld item = Inr r \<Longrightarrow>
   \<exists>bs' m'. candidate_loop env ld (item # rest) fr bs m = candidate_loop env ld rest (fr @ [r]) bs' m'"
  using loop_Cons_result [of env ld item rest fr bs m] by simp

lemma loop_error:
  "candidate_loop env ld items fr bs m = Inl e \<Longrightarrow>
   \<exists>item\<in>set items. candidate_result env ld item = Inl e"
proof (induction items arbitrary: fr bs m)
  case Nil
  then show ?case by simp
next
  case (Cons item rest)
  show ?case
  proof (cases "candidate_result env ld item")
    case (Inl e')
    from loop_Cons_error [OF Inl, of rest fr bs m] Cons.prems have "e' = e"
      by (simp del: candidate_loop.simps)
    with Inl show ?thesis by simp
  next
    case (Inr r)
    from loop_Cons_ok [OF Inr] Cons.prems obtain bs' m' where
      "candidate_loop env ld rest (fr @ [r]) bs' m' = Inl e" by metis
    from Cons.IH [OF this] show ?thesis by simp
  qed
qed

lemma outcome_results:
  assumes "compare_faces env req = Outcome m b faces"
    and "accountNumber req = Some acct"
    and "fetchAccountData env acct = Inr cands"
  obtains lb ld where "livePhoto req = Some lb" "detect_face env lb = Inr (Some ld)"
    "map (candidate_result env ld) cands = map Inr faces"
proof -
  from assms(1) obtain acct' lb cands' ld bs where
    *: "accountNumber req = Some acct'" "livePhoto req = Some lb"
       "fetchAccountData env acct' = Inr cands'" "detect_face env lb = Inr (Some ld)"
       "candidate_loop env ld cands' [] 0 False = Inr (faces, bs, m)"
    by (rule compare_faces_OutcomeD)
  from * assms(2,3) have "cands' = cands" by simp
  with *(5) loop_results [of env ld cands "[]" 0 False faces bs m]
  have "map (candidate_result env ld) cands = map Inr faces" by simp
  with *(2,4) show thesis by (rule that)
qed

lemma results_nth:
  assumes "map (candidate_result env ld) cands = map Inr faces" and "i < length cands"
  shows "i < length faces \<and> candidate_result env ld (cands ! i) = Inr (faces ! i)"
proof -
  from assms(1) have len: "length cands = length faces" by (rule map_eq_imp_length_eq)
  from assms(1) have "map (candidate_result env ld) cands ! i = map Inr faces ! i" by simp
  with assms(2) len show ?thesis by simp
qed

section \<open>Runs on the sample inputs\<close>

lemmas sample_defs =
  compare_faces_def fetchAccountData_def detect_face_def stored_photo_buffer_def
  split_comma_1_def sample_env_def sample_request_def sample_faces_def account_reply_def
  approved_item_def photo_url_def toFixed4_def candidate_result_def parseFloat_def
  fl64_three_quarters fl64_minus_half fl64_odd

lemma run_near_blank:
  "compare_faces (sample_env (account_reply [''near'', ''blank'']) sample_faces)
     (sample_request ''live'') =
   Outcome True 0.75
     [\<lparr>faceUrl = photo_url ''near'', isMatch = True, similarity = 0.75\<rparr>,
      \<lparr>faceUrl = photo_url ''blank'', isMatch = False, similarity = 0\<rparr>]"
  by (simp add: sample_defs)

lemma run_far_near:
  "compare_faces (sample_env (account_reply [''far'', ''near'']) sample_faces)
     (sample_request ''live'') =
   Outcome True 0.75
     [\<lparr>faceUrl = photo_url ''far'', isMatch = False, similarity = - 0.5\<rparr>,
      \<lparr>faceUrl = photo_url ''near'', isMatch = True, similarity = 0.75\<rparr>]"
  by (simp add: sample_defs)

lemma run_blank_empty:
  "compare_faces (sample_env (account_reply [''blank'', ''empty'']) sample_faces)
     (sample_request ''live'') =
   Outcome False 0
     [\<lparr>faceUrl = photo_url ''blank'', isMatch = False, similarity = 0\<rparr>,
      \<lparr>faceUrl = photo_url ''empty'', isMatch = False, similarity = 0\<rparr>]"
  by (simp add: sample_defs)

section \<open>Aggregation over the candidates\<close>

text \<open>
  Claim C5. For every face-comparison request that returns a Verification Outcome, the
  overall \<open>isMatch\<close> flag is true if and only if at least one Match Result of the returned
  \<open>faces\<close> sequence has \<open>isMatch = true\<close>.
\<close>

theorem overall_match_iff_some_match:
  assumes "compare_faces env req = Outcome m b faces"
  shows "m = (\<exists>r\<in>set faces. isMatch r)"
proof -
  from assms obtain ld cands bs where
    "candidate_loop env ld cands [] 0 False = Inr (faces, bs, m)"
    by (rule compare_faces_OutcomeD)
  then show ?thesis by (rule loop_isMatch) simp
qed

theorem overall_match_iff_some_match_witness:
  "compare_faces (sample_env (account_reply [''near'', ''blank'']) sample_faces)
     (sample_request ''live'') =
   Outcome True 0.75
     [\<lparr>faceUrl = photo_url ''near'', isMatch = True, similarity = 0.75\<rparr>,
      \<lparr>faceUrl = photo_url ''blank'', isMatch = False, similarity = 0\<rparr>]
   \<and> (\<exists>r\<in>set [\<lparr>faceUrl = photo_url ''near'', isMatch = True, similarity = 0.75\<rparr>,
                 \<lparr>faceUrl = photo_url ''blank'', isMatch = False, similarity = 0\<rparr>].
          isMatch r)"
  using overall_match_iff_some_match [OF run_near_blank] run_near_blank by simp

text \<open>
  Claim C9. For every face-comparison request that returns a Verification Outcome, the
  returned \<open>bestSimilarity\<close> is never negative: the accumulator starts at 0 and is only
  ever replaced by a greater similarity (\<open>loop_best_mono\<close>), although a Match Result of
  the same response may carry a negative similarity, as the first one of the run below does.
\<close>

theorem best_similarity_nonneg:
  assumes "compare_faces env req = Outcome m b faces"
  shows "0 \<le> b"
proof -
  from assms obtain ld cands bs where
    "candidate_loop env ld cands [] 0 False = Inr (faces, bs, m)" and b: "b = parseFloat (toFixed4 bs)"
    by (rule compare_faces_OutcomeD)
  then have "0 \<le> bs" by (simp add: loop_best_mono)
  with b show ?thesis by (simp add: round4_nonneg)
qed

theorem best_similarity_nonneg_witness:
  "compare_faces (sample_env (account_reply [''far'', ''near'']) sample_faces)
     (sample_request ''live'') =
   Outcome True 0.75
     [\<lparr>faceUrl = photo_url ''far'', isMatch = False, similarity = - 0.5\<rparr>,
      \<lparr>faceUrl = photo_url ''near'', isMatch = True, similarity = 0.75\<rparr>]
   \<and> (0::real) \<le> 0.75"
  using best_similarity_nonneg [OF run_far_near] run_far_near by simp

text \<open>
  Claim C1, as stated: the returned \<open>bestSimilarity\<close> is the maximum of the per-candidate
  similarities, a candidate whose detection failed counting 0. It fails when every
  candidate is compared and every similarity is negative: a single candidate at distance
  1.5 has similarity \<open>-0.5\<close>, and \<open>bestSimilarity\<close> is 0.
\<close>

theorem best_similarity_not_max_counterexample:
  "compare_faces (sample_env (account_reply [''far'']) sample_faces) (sample_request ''live'') =
     Outcome False 0 [\<lparr>faceUrl = photo_url ''far'', isMatch = False, similarity = - 0.5\<rparr>]
   \<and> (0::real) \<noteq> Max (similarity ` set
         [\<lparr>faceUrl = photo_url ''far'', isMatch = False, similarity = - 0.5\<rparr>])"
  by (simp add: sample_defs)

text \<open>
  Claim C1, amended. For every face-comparison request that returns a Verification
  Outcome, the returned \<open>bestSimilarity\<close> is the greater of 0 and the maximum similarity of
  the returned Match Results (a candidate whose detection failed has similarity 0); in
  particular it is 0 when every candidate failed detection.
\<close>

theorem best_similarity_max_with_floor:
  assumes "compare_faces env req = Outcome m b faces"
  shows "b = Max (insert 0 (similarity ` set faces))
       \<and> ((\<forall>r\<in>set faces. similarity r = 0) \<longrightarrow> b = 0)"
proof -
  from assms obtain ld cands bs where
    loop: "candidate_loop env ld cands [] 0 False = Inr (faces, bs, m)" and b: "b = parseFloat (toFixed4 bs)"
    by (rule compare_faces_OutcomeD)
  from loop have "parseFloat (toFixed4 bs) = Max (insert 0 (similarity ` set faces))"
    by (rule loop_best) (simp add: round4_zero)
  with b have max: "b = Max (insert 0 (similarity ` set faces))" by simp
  have "b = 0" if "\<forall>r\<in>set faces. similarity r = 0"
  proof -
    from that have "insert 0 (similarity ` set faces) = {0}" by auto
    with max show ?thesis by simp
  qed
  with max show ?thesis by blast
qed

theorem best_similarity_max_with_floor_witness:
  "(0.75::real) = Max (insert 0 (similarity ` set
       [\<lparr>faceUrl = photo_url ''near'', isMatch = True, similarity = 0.75\<rparr>,
        \<lparr>faceUrl = photo_url ''blank'', isMatch = False, similarity = 0\<rparr>]))
   \<and> compare_faces (sample_env (account_reply [''blank'', ''empty'']) sample_faces)
       (sample_request ''live'') =
     Outcome False 0
       [\<lparr>faceUrl = photo_url ''blank'', isMatch = False, similarity = 0\<rparr>,
        \<lparr>faceUrl = photo_url ''empty'', isMatch = False, similarity = 0\<rparr>]"
  using best_similarity_max_with_floor [OF run_near_blank]
    best_similarity_max_with_floor [OF run_blank_empty] run_blank_empty
  by simp

section \<open>The Match Result of each candidate\<close>

text \<open>
  Claim C3, as stated: the Match Result of a candidate whose face detection failed has
  similarity 0, \<open>isMatch = false\<close> and a recorded failure reason, so that the caller can tell
  a candidate that could not be compared from one that was compared and did not match.
  A Match Result has the fields \<open>faceUrl\<close>, \<open>isMatch\<close> and \<open>similarity\<close> only (the
  reason goes to the log), and a candidate compared at distance 1 yields the very same
  response as one with no detectable face.
\<close>

theorem failed_detection_indistinguishable_counterexample:
  "compare_faces (sample_env (account_reply [''unit'']) (sample_faces(''unit'' := None)))
     (sample_request ''live'') =
   Outcome False 0 [\<lparr>faceUrl = photo_url ''unit'', isMatch = False, similarity = 0\<rparr>]
   \<and> compare_faces (sample_env (account_reply [''unit'']) sample_faces)
     (sample_request ''live'') =
   Outcome False 0 [\<lparr>faceUrl = photo_url ''unit'', isMatch = False, similarity = 0\<rparr>]
   \<and> detect_face (sample_env (account_reply [''unit'']) (sample_faces(''unit'' := None))) ''unit'' =
       Inr None
   \<and> detect_face (sample_env (account_reply [''unit'']) sample_faces) ''unit'' = Inr (Some 1)"
  by (simp add: sample_defs)

text \<open>
  Claim C3, amended. In every response that is a Verification Outcome, the Match Result of
  a candidate whose face detection failed stands at that candidate's position and is
  \<open>faceUrl\<close> = the candidate's photo, \<open>isMatch = false\<close>, \<open>similarity = 0\<close>; it
  carries no failure reason.
\<close>

theorem failed_detection_result:
  assumes "compare_faces env req = Outcome m b faces"
    and "accountNumber req = Some acct"
    and "fetchAccountData env acct = Inr cands"
    and "i < length cands"
    and "get_prop (Some (cands ! i)) ''photo'' = Inr photo"
    and "stored_photo_buffer env photo = Inr (url, buf)"
    and "detect_face env buf = Inr None"
  shows "i < length faces \<and> faces ! i = \<lparr>faceUrl = url, isMatch = False, similarity = 0\<rparr>"
proof -
  from assms(1-3) obtain lb ld where
    "map (candidate_result env ld) cands = map Inr faces"
    by (rule outcome_results)
  then have "i < length faces \<and> candidate_result env ld (cands ! i) = Inr (faces ! i)"
    using assms(4) by (rule results_nth)
  moreover have "candidate_result env ld (cands ! i) =
      Inr \<lparr>faceUrl = url, isMatch = False, similarity = 0\<rparr>"
    using assms(5-7) by (simp add: candidate_result_def)
  ultimately show ?thesis by simp
qed

theorem failed_detection_result_witness:
  "[\<lparr>faceUrl = photo_url ''near'', isMatch = True, similarity = 0.75\<rparr>,
    \<lparr>faceUrl = photo_url ''blank'', isMatch = False, similarity = 0\<rparr>] ! 1 =
     \<lparr>faceUrl = photo_url ''blank'', isMatch = False, similarity = 0\<rparr>
   \<and> detect_face (sample_env (account_reply [''near'', ''blank'']) sample_faces) ''blank'' = Inr None"
  using failed_detection_result
      [OF run_near_blank, where acct = "''0012345''" and i = 1
         and cands = "map approved_item [''near'', ''blank'']"
         and photo = "Some (JStr (photo_url ''blank''))"
         and url = "photo_url ''blank''" and buf = "''blank''"]
  by (simp add: sample_defs)

text \<open>
  Claim C6, as stated: the similarity of a candidate whose face was detected is 1 minus
  the Euclidean distance to the live descriptor. The similarity of the Match Result is
  that difference rounded to four decimals: at distance \<open>262143 / 2^20\<close> (about 0.249999)
  the difference is \<open>786433 / 2^20\<close> (about 0.750001), exactly and as a double, and the
  Match Result says 0.75.
\<close>

theorem similarity_rounded_counterexample:
  "compare_faces (sample_env (account_reply [''odd'']) sample_faces) (sample_request ''live'') =
     Outcome True 0.75 [\<lparr>faceUrl = photo_url ''odd'', isMatch = True, similarity = 0.75\<rparr>]
   \<and> euclideanDistance (sample_env (account_reply [''odd'']) sample_faces) 0 (262143 / 1048576) =
       Inr (262143 / 1048576)
   \<and> (0.75::real) \<noteq> 1 - 262143 / 1048576
   \<and> fl64 (1 - 262143 / 1048576) = 1 - 262143 / 1048576"
  by (simp add: sample_defs)

text \<open>
  Claim C6, amended. In every response that is a Verification Outcome, the Match Result of
  a candidate whose face was detected has, as similarity, the double difference
  \<open>1 - distance\<close> between 1 and the Euclidean distance from the live descriptor to the
  candidate's descriptor, rounded to four decimals (\<open>toFixed(4)\<close> read back by
  \<open>parseFloat\<close>) and not clamped (it is \<open>-0.5\<close> at distance 1.5), and its \<open>isMatch\<close>
  flag is true if and only if that distance is strictly less than 0.5.
\<close>

theorem detected_candidate_result:
  assumes "compare_faces env req = Outcome m b faces"
    and "accountNumber req = Some acct"
    and "fetchAccountData env acct = Inr cands"
    and "livePhoto req = Some lb"
    and "detect_face env lb = Inr (Some ld)"
    and "i < length cands"
    and "get_prop (Some (cands ! i)) ''photo'' = Inr photo"
    and "stored_photo_buffer env photo = Inr (url, buf)"
    and "detect_face env buf = Inr (Some sd)"
    and "euclideanDistance env ld sd = Inr distance"
  shows "i < length faces
       \<and> faces ! i = \<lparr>faceUrl = url, isMatch = (distance < 0.5),
                       similarity = parseFloat (toFixed4 (fl64 (1 - distance)))\<rparr>"
proof -
  from assms(1-3) obtain lb' ld' where
    "livePhoto req = Some lb'" "detect_face env lb' = Inr (Some ld')"
    "map (candidate_result env ld') cands = map Inr faces"
    by (rule outcome_results)
  with assms(4,5) have "map (candidate_result env ld) cands = map Inr faces" by simp
  then have "i < length faces \<and> candidate_result env ld (cands ! i) = Inr (faces ! i)"
    using assms(6) by (rule results_nth)
  moreover have "candidate_result env ld (cands ! i) =
      Inr \<lparr>faceUrl = url, isMatch = (distance < 0.5),
           similarity = parseFloat (toFixed4 (fl64 (1 - distance)))\<rparr>"
    using assms(7-10) by (simp add: candidate_result_def)
  ultimately show ?thesis by simp
qed

theorem detected_candidate_result_witness:
  "[\<lparr>faceUrl = photo_url ''far'', isMatch = False, similarity = - 0.5\<rparr>,
    \<lparr>faceUrl = photo_url ''near'', isMatch = True, similarity = 0.75\<rparr>] ! 0 =
     \<lparr>faceUrl = photo_url ''far'', isMatch = ((3 / 2::real) < 0.5),
      similarity = parseFloat (toFixed4 (fl64 (1 - 3 / 2)))\<rparr>
   \<and> euclideanDistance (sample_env (account_reply [''far'', ''near'']) sample_faces) 0 (3 / 2) =
       Inr (3 / 2)"
  using detected_candidate_result
      [OF run_far_near, where acct = "''0012345''" and i = 0 and lb = "''live''" and ld = 0
         and cands = "map approved_item [''far'', ''near'']"
         and photo = "Some (JStr (photo_url ''far''))"
         and url = "photo_url ''far''" and buf = "''far''" and sd = "3 / 2"
         and distance = "3 / 2"]
  by (simp add: sample_defs)

section \<open>Failures of the request\<close>

text \<open>
  Claim C2, as stated: a decode error or a missing face on one candidate is recorded in
  that candidate's Match Result and the remaining candidates are still processed; only a
  failure on the live image or the absence of any accessible candidate aborts the request.
  The loop has no handler of its own, so an exception on one candidate aborts the request:
  here the live image has a face and the second candidate would match, yet the first
  candidate's undecodable photo fails the whole request.
\<close>

theorem decode_error_aborts_counterexample:
  "compare_faces (sample_env (account_reply [''corrupt'', ''near'']) sample_faces)
     (sample_request ''live'') =
   ErrorResponse 500 ''Failed to compare faces''
     (Some ''Input buffer contains unsupported image format'')
   \<and> detect_face (sample_env (account_reply [''corrupt'', ''near'']) sample_faces) ''live'' =
       Inr (Some 0)
   \<and> candidate_result (sample_env (account_reply [''corrupt'', ''near'']) sample_faces) 0
       (approved_item ''near'') =
       Inr \<lparr>faceUrl = photo_url ''near'', isMatch = True, similarity = 0.75\<rparr>"
  by (simp add: sample_defs)

text \<open>
  Claim C2, amended. For a request with an account number and a live photo:
  if the account fetch fails, the request fails with \<open>Failed to compare faces\<close> (status
  500) and the message of that failure;
  if the fetch succeeds and preparing or examining the live image throws, it fails with
  \<open>Failed to compare faces\<close> (status 500) and the message of that exception;
  if the fetch succeeds and the live image holds no face, it fails with status 400
  (\<open>No face detected in the live photo\<close>);
  if the fetch succeeds and the live face is detected, the candidates are processed in
  order and independently. A candidate in which no face is detected has a result (no
  match, similarity 0) and does not stop the loop.
  If no candidate raises an exception, the response is a Verification Outcome whose Match
  Results are, position by position, the results of the candidates, each determined by
  that candidate and the live descriptor alone. If some candidate raises an exception (its
  photo cannot be decoded or loaded, or detection or the distance throws), the whole
  request fails with \<open>Failed to compare faces\<close> (status 500) and that exception's message.
\<close>

theorem candidates_processed_independently:
  assumes "accountNumber req = Some acct" and "acct \<noteq> []" and "livePhoto req = Some lb"
  shows "(\<forall>e. fetchAccountData env acct = Inl e \<longrightarrow>
            compare_faces env req = ErrorResponse 500 ''Failed to compare faces'' (Some e))
       \<and> (\<forall>cands e. fetchAccountData env acct = Inr cands \<and> detect_face env lb = Inl e \<longrightarrow>
            compare_faces env req = ErrorResponse 500 ''Failed to compare faces'' (Some e))
       \<and> (\<forall>cands. fetchAccountData env acct = Inr cands \<and> detect_face env lb = Inr None \<longrightarrow>
            compare_faces env req =
              ErrorResponse 400 ''No face detected in the live photo'' None)
       \<and> (\<forall>ld item photo url buf.
            get_prop (Some item) ''photo'' = Inr photo
            \<and> stored_photo_buffer env photo = Inr (url, buf)
            \<and> detect_face env buf = Inr None \<longrightarrow>
            candidate_result env ld item =
              Inr \<lparr>faceUrl = url, isMatch = False, similarity = 0\<rparr>)
       \<and> (\<forall>cands ld.
            fetchAccountData env acct = Inr cands \<and> detect_face env lb = Inr (Some ld) \<longrightarrow>
            (if \<forall>item\<in>set cands. \<exists>r. candidate_result env ld item = Inr r
             then \<exists>m b faces. compare_faces env req = Outcome m b faces
                    \<and> map Inr faces = map (candidate_result env ld) cands
             else \<exists>e. compare_faces env req =
                        ErrorResponse 500 ''Failed to compare faces'' (Some e)
                    \<and> (\<exists>item\<in>set cands. candidate_result env ld item = Inl e)))"
proof -
  have fetch: "compare_faces env req = ErrorResponse 500 ''Failed to compare faces'' (Some e)"
    if "fetchAccountData env acct = Inl e" for e
    using that assms by (simp add: compare_faces_def)
  have live: "compare_faces env req = ErrorResponse 500 ''Failed to compare faces'' (Some e)"
    if "fetchAccountData env acct = Inr cands" "detect_face env lb = Inl e" for cands e
    using that assms by (simp add: compare_faces_def)
  have noface: "compare_faces env req =
      ErrorResponse 400 ''No face detected in the live photo'' None"
    if "fetchAccountData env acct = Inr cands" "detect_face env lb = Inr None" for cands
    using that assms by (simp add: compare_faces_def)
  have recorded: "candidate_result env ld item =
      Inr \<lparr>faceUrl = url, isMatch = False, similarity = 0\<rparr>"
    if "get_prop (Some item) ''photo'' = Inr photo"
      "stored_photo_buffer env photo = Inr (url, buf)" "detect_face env buf = Inr None"
    for ld :: 'c and item photo url buf
    using that by (simp add: candidate_result_def)
  have loop: "if \<forall>item\<in>set cands. \<exists>r. candidate_result env ld item = Inr r
         then \<exists>m b faces. compare_faces env req = Outcome m b faces
                \<and> map Inr faces = map (candidate_result env ld) cands
         else \<exists>e. compare_faces env req = ErrorResponse 500 ''Failed to compare faces'' (Some e)
                \<and> (\<exists>item\<in>set cands. candidate_result env ld item = Inl e)"
    if f: "fetchAccountData env acct = Inr cands" and l: "detect_face env lb = Inr (Some ld)"
    for cands ld
  proof (cases "candidate_loop env ld cands [] 0 False")
    case (Inl e)
    then have resp: "compare_faces env req =
        ErrorResponse 500 ''Failed to compare faces'' (Some e)"
      using assms f l by (simp add: compare_faces_def)
    from Inl have bad: "\<exists>item\<in>set cands. candidate_result env ld item = Inl e"
      by (rule loop_error)
    then have "\<not> (\<forall>item\<in>set cands. \<exists>r. candidate_result env ld item = Inr r)"
      by (metis sum.distinct(1))
    with resp bad show ?thesis by auto
  next
    case (Inr out)
    obtain faces bs m where out: "out = (faces, bs, m)" by (cases out)
    with Inr have resp: "compare_faces env req = Outcome m (parseFloat (toFixed4 bs)) faces"
      using assms f l by (simp add: compare_faces_def)
    from Inr out loop_results [of env ld cands "[]" 0 False faces bs m]
    have map: "map (candidate_result env ld) cands = map Inr faces" by simp
    have "\<forall>item\<in>set cands. \<exists>r. candidate_result env ld item = Inr r"
    proof
      fix item assume "item \<in> set cands"
      then have "candidate_result env ld item \<in> set (map Inr faces)"
        using map by (metis image_eqI set_map)
      then show "\<exists>r. candidate_result env ld item = Inr r" by auto
    qed
    with resp map show ?thesis by auto
  qed
  from fetch live noface recorded loop show ?thesis by blast
qed

theorem candidates_processed_independently_witness:
  "(\<exists>m b faces.
      compare_faces (sample_env (account_reply [''near'', ''blank'', ''far'']) sample_faces)
        (sample_request ''live'') = Outcome m b faces
      \<and> faces = [\<lparr>faceUrl = photo_url ''near'', isMatch = True, similarity = 0.75\<rparr>,
                  \<lparr>faceUrl = photo_url ''blank'', isMatch = False, similarity = 0\<rparr>,
                  \<lparr>faceUrl = photo_url ''far'', isMatch = False, similarity = - 0.5\<rparr>])
   \<and> (\<exists>e. compare_faces (sample_env (account_reply [''near'', ''corrupt'']) sample_faces)
          (sample_request ''live'') = ErrorResponse 500 ''Failed to compare faces'' (Some e))
   \<and> compare_faces (sample_env (account_reply []) sample_faces) (sample_request ''live'') =
       ErrorResponse 500 ''Failed to compare faces''
         (Some ''Invalid response format from external API: approved array is missing or empty'')
   \<and> compare_faces (sample_env (account_reply [''near'']) sample_faces)
         (sample_request ''corrupt'') =
       ErrorResponse 500 ''Failed to compare faces''
         (Some ''Input buffer contains unsupported image format'')
   \<and> compare_faces (sample_env (account_reply [''near'']) sample_faces)
         (sample_request ''blank'') =
       ErrorResponse 400 ''No face detected in the live photo'' None"
  using
    candidates_processed_independently
      [where req = "sample_request ''live''" and acct = "''0012345''" and lb = "''live''"
         and env = "sample_env (account_reply [''near'', ''blank'', ''far'']) sample_faces"]
    candidates_processed_independently
      [where req = "sample_request ''live''" and acct = "''0012345''" and lb = "''live''"
         and env = "sample_env (account_reply [''near'', ''corrupt'']) sample_faces"]
    candidates_processed_independently
      [where req = "sample_request ''live''" and acct = "''0012345''" and lb = "''live''"
         and env = "sample_env (account_reply []) sample_faces"]
    candidates_processed_independently
      [where req = "sample_request ''corrupt''" and acct = "''0012345''" and lb = "''corrupt''"
         and env = "sample_env (account_reply [''near'']) sample_faces"]
    candidates_processed_independently
      [where req = "sample_request ''blank''" and acct = "''0012345''" and lb = "''blank''"
         and env = "sample_env (account_reply [''near'']) sample_faces"]
  by (simp add: sample_defs)

text \<open>
  Claim C7, as stated: every request whose live image has no detectable face fails with the
  NoLiveFace error. The account data is fetched before the live image is examined, so when
  the fetch fails the request fails with the fetch error instead.
\<close>

theorem fetch_error_before_live_check_counterexample:
  "detect_face (sample_env (account_reply []) sample_faces) ''blank'' = Inr None
   \<and> compare_faces (sample_env (account_reply []) sample_faces) (sample_request ''blank'') =
       ErrorResponse 500 ''Failed to compare faces''
         (Some ''Invalid response format from external API: approved array is missing or empty'')"
  by (simp add: sample_defs)

text \<open>
  Claim C7, amended. A request whose live image has no detectable face never returns a
  Verification Outcome. If its account data was fetched, it fails with the NoLiveFace
  error (status 400, \<open>No face detected in the live photo\<close>) and no Match Result is computed;
  if the fetch failed, it fails with the fetch error (status 500).
\<close>

theorem no_live_face_aborts:
  assumes "livePhoto req = Some lb" and "detect_face env lb = Inr None"
  shows "(\<forall>m b faces. compare_faces env req \<noteq> Outcome m b faces)
       \<and> (\<forall>acct cands. accountNumber req = Some acct \<and> acct \<noteq> []
             \<and> fetchAccountData env acct = Inr cands
           \<longrightarrow> compare_faces env req =
                 ErrorResponse 400 ''No face detected in the live photo'' None)
       \<and> (\<forall>acct e. accountNumber req = Some acct \<and> acct \<noteq> []
             \<and> fetchAccountData env acct = Inl e
           \<longrightarrow> compare_faces env req =
                 ErrorResponse 500 ''Failed to compare faces'' (Some e))"
  using assms
  by (auto simp add: compare_faces_def split: option.splits sum.splits)

theorem no_live_face_aborts_witness:
  "detect_face (sample_env (account_reply [''near'']) sample_faces) ''blank'' = Inr None
   \<and> compare_faces (sample_env (account_reply [''near'']) sample_faces) (sample_request ''blank'') =
       ErrorResponse 400 ''No face detected in the live photo'' None"
  using no_live_face_aborts
      [where req = "sample_request ''blank''" and lb = "''blank''"
         and env = "sample_env (account_reply [''near'']) sample_faces"]
  by (simp add: sample_defs)

text \<open>
  Claim C8. A request (with an account number and a live photo) for which the account
  store returns an empty \<open>approved\<close> list fails with the error
  \<open>approved array is missing or empty\<close> (status 500), which is not the response given for a
  live photo without a face; no Verification Outcome is returned.
\<close>

theorem empty_candidate_set_fails:
  assumes "accountNumber req = Some acct" and "acct \<noteq> []" and "livePhoto req = Some lb"
    and "axios_request env (''http://10.203.14.169/imaging/get_account_signature-'' @ acct) = Inr reply"
    and "get_prop (Some reply) ''approved'' = Inr (Some (JArr []))"
  shows "compare_faces env req =
           ErrorResponse 500 ''Failed to compare faces''
             (Some ''Invalid response format from external API: approved array is missing or empty'')
       \<and> compare_faces env req \<noteq> ErrorResponse 400 ''No face detected in the live photo'' None"
  using assms by (simp add: compare_faces_def fetchAccountData_def)

theorem empty_candidate_set_fails_witness:
  "compare_faces (sample_env (account_reply []) sample_faces) (sample_request ''live'') =
     ErrorResponse 500 ''Failed to compare faces''
       (Some ''Invalid response format from external API: approved array is missing or empty'')"
  using empty_candidate_set_fails
      [where req = "sample_request ''live''" and acct = "''0012345''" and lb = "''live''"
         and env = "sample_env (account_reply []) sample_faces" and reply = "account_reply []"]
  by (simp add: sample_defs)

lemma check_items_lacking:
  assumes "item \<in> set items"
    and "get_prop (Some item) ''photo'' = Inr None \<or> get_prop (Some item) ''signature'' = Inr None"
  shows "\<exists>e. check_items items = Inl e"
  using assms
  by (induction items) (auto split: sum.splits)

text \<open>
  Claim C10. If any entry of the \<open>approved\<close> list lacks a \<open>photo\<close> or a \<open>signature\<close>
  field, the whole request fails with a request-level error (status 500) and no Match
  Result is returned, although the candidate loop reads the \<open>photo\<close> field only: the entry
  of the run below, which has no signature, would have matched.
\<close>

theorem incomplete_entry_fails_request:
  assumes "accountNumber req = Some acct" and "acct \<noteq> []" and "livePhoto req = Some lb"
    and "axios_request env (''http://10.203.14.169/imaging/get_account_signature-'' @ acct) = Inr reply"
    and "get_prop (Some reply) ''approved'' = Inr (Some (JArr items))"
    and "item \<in> set items"
    and "get_prop (Some item) ''photo'' = Inr None \<or> get_prop (Some item) ''signature'' = Inr None"
  shows "\<exists>e. compare_faces env req = ErrorResponse 500 ''Failed to compare faces'' (Some e)"
proof -
  from assms(6,7) obtain e where "check_items items = Inl e"
    using check_items_lacking by blast
  moreover from assms(6) have "items \<noteq> []" by auto
  ultimately show ?thesis using assms(1-5)
    by (simp add: compare_faces_def fetchAccountData_def)
qed

theorem incomplete_entry_fails_request_witness:
  "compare_faces
     (sample_env (JObj [(''approved'',
          JArr [approved_item ''near'', JObj [(''photo'', JStr (photo_url ''near''))]])])
        sample_faces)
     (sample_request ''live'') =
   ErrorResponse 500 ''Failed to compare faces''
     (Some ''Invalid response format from external API: photo or signature missing in approved item'')
   \<and> candidate_result
       (sample_env (JObj [(''approved'',
          JArr [approved_item ''near'', JObj [(''photo'', JStr (photo_url ''near''))]])])
        sample_faces) 0 (JObj [(''photo'', JStr (photo_url ''near''))]) =
     Inr \<lparr>faceUrl = photo_url ''near'', isMatch = True, similarity = 0.75\<rparr>"
  using incomplete_entry_fails_request
      [where req = "sample_request ''live''" and acct = "''0012345''" and lb = "''live''"
         and env = "sample_env (JObj [(''approved'',
              JArr [approved_item ''near'', JObj [(''photo'', JStr (photo_url ''near''))]])])
              sample_faces"
         and reply = "JObj [(''approved'',
              JArr [approved_item ''near'', JObj [(''photo'', JStr (photo_url ''near''))]])]"
         and items = "[approved_item ''near'', JObj [(''photo'', JStr (photo_url ''near''))]]"
         and item = "JObj [(''photo'', JStr (photo_url ''near''))]"]
  by (simp add: sample_defs)

section \<open>The signature similarity\<close>

text \<open>
  The bytes and their sums are integers below \<open>2^53\<close>, so the pixel loop is exact; the
  quotient and the final difference are rounded.
\<close>

lemma pixel_ipixel: "pixel img i = of_int (ipixel img i)"
  by (simp add: pixel_def ipixel_def)

lemma ipixel_range: "0 \<le> ipixel img i \<and> ipixel img i \<le> 255"
proof -
  have "unat (data img ! i) < 2 ^ 8" using unsigned_less [of "data img ! i"] by simp
  then have "unat (data img ! i) \<le> 255" by simp
  then have "int (unat (data img ! i)) \<le> int 255" by (simp only: of_nat_le_iff)
  then show ?thesis by (simp add: ipixel_def)
qed

lemma ipixel_diff_le: "\<bar>ipixel img1 i - ipixel img2 i\<bar> \<le> 255"
  using ipixel_range [of img1 i] ipixel_range [of img2 i] by linarith

lemma buf_at_pixel: "i < length (data img) \<Longrightarrow> buf_at (data img) i = Some (pixel img i)"
  by (simp add: buf_at_def pixel_def)

lemma pixel_step:
  assumes "0 \<le> d" and "d + 255 \<le> 2 ^ 53"
  shows "fl64 (of_int d + \<bar>fl64 (pixel img1 i - pixel img2 i)\<bar>) =
         of_int (d + \<bar>ipixel img1 i - ipixel img2 i\<bar>)"
proof -
  let ?k = "ipixel img1 i - ipixel img2 i"
  have k: "\<bar>?k\<bar> \<le> 255" by (rule ipixel_diff_le)
  then have "\<bar>?k\<bar> \<le> 2 ^ 53" by simp
  then have "fl64 (of_int ?k) = of_int ?k" by (rule fl64_of_int)
  then have inner: "fl64 (pixel img1 i - pixel img2 i) = of_int ?k"
    by (simp only: pixel_ipixel of_int_diff)
  have "\<bar>d + \<bar>?k\<bar>\<bar> \<le> 2 ^ 53" using assms k by linarith
  then have "fl64 (of_int (d + \<bar>?k\<bar>)) = of_int (d + \<bar>?k\<bar>)" by (rule fl64_of_int)
  then show ?thesis by (simp only: inner of_int_add of_int_abs)
qed

lemma pixel_loop_sum:
  "i \<le> n \<Longrightarrow> n \<le> length (data img1) \<Longrightarrow> n \<le> length (data img2) \<Longrightarrow>
   0 \<le> d \<Longrightarrow> d + 255 * int (n - i) \<le> 2 ^ 53 \<Longrightarrow>
   pixel_loop img1 img2 n i (Some (of_int d)) =
     Some (of_int (d + (\<Sum>k = i..<n. \<bar>ipixel img1 k - ipixel img2 k\<bar>)))"
proof (induction "n - i" arbitrary: i d)
  case 0
  then have "i = n" by simp
  then show ?case by (subst pixel_loop.simps) simp
next
  case (Suc j)
  then have lt: "i < n" by linarith
  let ?d' = "d + \<bar>ipixel img1 i - ipixel img2 i\<bar>"
  have step: "fl64 (of_int d + \<bar>fl64 (pixel img1 i - pixel img2 i)\<bar>) = of_int ?d'"
    using Suc.prems lt by (intro pixel_step) simp_all
  have bufs: "buf_at (data img1) i = Some (pixel img1 i)" "buf_at (data img2) i = Some (pixel img2 i)"
    using Suc.prems lt by (simp_all add: buf_at_pixel)
  have "pixel_loop img1 img2 n i (Some (of_int d)) =
        pixel_loop img1 img2 n (i + 1) (Some (of_int ?d'))"
    using lt by (subst pixel_loop.simps) (simp only: bufs step if_True prod.case option.case)
  also have "\<dots> = Some (of_int (?d' + (\<Sum>k = i + 1..<n. \<bar>ipixel img1 k - ipixel img2 k\<bar>)))"
  proof (rule Suc.hyps(1))
    show "j = n - (i + 1)" using Suc.hyps(2) by simp
    show "i + 1 \<le> n" using lt by simp
    show "n \<le> length (data img1)" "n \<le> length (data img2)" using Suc.prems by simp_all
    show "0 \<le> ?d'" using Suc.prems by simp
    have "\<bar>ipixel img1 i - ipixel img2 i\<bar> \<le> 255" by (rule ipixel_diff_le)
    moreover have "int (n - i) = int (n - (i + 1)) + 1" using lt by simp
    ultimately show "?d' + 255 * int (n - (i + 1)) \<le> 2 ^ 53" using Suc.prems(5) by simp
  qed
  finally show ?case using lt by (simp add: sum.atLeast_Suc_lessThan add.assoc)
qed

lemma pixel_sum_int:
  "(\<Sum>i < n. \<bar>pixel img1 i - pixel img2 i\<bar>) =
   of_int (\<Sum>i < n. \<bar>ipixel img1 i - ipixel img2 i\<bar>)"
  by (simp add: pixel_ipixel)

lemma ipixel_sum_range:
  "0 \<le> (\<Sum>i < n. \<bar>ipixel img1 i - ipixel img2 i\<bar>)
   \<and> (\<Sum>i < n. \<bar>ipixel img1 i - ipixel img2 i\<bar>) \<le> 255 * int n"
proof -
  have "(\<Sum>i < n. \<bar>ipixel img1 i - ipixel img2 i\<bar>) \<le> of_nat (card {..<n}) * 255"
    by (rule sum_bounded_above) (simp add: ipixel_diff_le)
  moreover have "0 \<le> (\<Sum>i < n. \<bar>ipixel img1 i - ipixel img2 i\<bar>)" by (simp add: sum_nonneg)
  ultimately show ?thesis by simp
qed

lemma similarity_formula_range:
  "0 \<le> similarity_formula img1 img2 \<and> similarity_formula img1 img2 \<le> 1"
proof -
  let ?n = "width img1 * height img1"
  let ?D = "\<Sum>i < ?n. \<bar>ipixel img1 i - ipixel img2 i\<bar>"
  have D: "0 \<le> real_of_int ?D \<and> real_of_int ?D \<le> real ?n * 255"
  proof -
    from ipixel_sum_range [where n = ?n and ?img1.0 = img1 and ?img2.0 = img2]
    have "0 \<le> ?D" and "?D \<le> 255 * int ?n" by simp_all
    then have "real_of_int 0 \<le> real_of_int ?D" and "real_of_int ?D \<le> real_of_int (255 * int ?n)"
      by (simp_all only: of_int_le_iff)
    then show ?thesis by (simp add: mult.commute)
  qed
  then have "0 \<le> real_of_int ?D / (real ?n * 255) \<and> real_of_int ?D / (real ?n * 255) \<le> 1"
    by (cases "?n = 0") (simp_all add: divide_le_eq_1 del: of_nat_mult)
  then show ?thesis by (simp only: similarity_formula_def pixel_sum_int) simp
qed

lemma signature_similarity_sum:
  assumes "length (data img1) = width img1 * height img1"
    and "length (data img2) = width img1 * height img1"
    and "0 < width img1 * height img1"
    and "255 * int (width img1 * height img1) \<le> 2 ^ 53"
  shows "signature_similarity img1 img2 =
         Some (fl64 (1 - fl64 (of_int (\<Sum>i < width img1 * height img1.
                                        \<bar>ipixel img1 i - ipixel img2 i\<bar>)
                               / of_int (255 * int (width img1 * height img1)))))"
proof -
  let ?n = "width img1 * height img1"
  let ?D = "\<Sum>i < ?n. \<bar>ipixel img1 i - ipixel img2 i\<bar>"
  have "pixel_loop img1 img2 ?n 0 (Some (of_int 0)) =
        Some (of_int (0 + (\<Sum>k = 0..<?n. \<bar>ipixel img1 k - ipixel img2 k\<bar>)))"
    using assms by (intro pixel_loop_sum) simp_all
  then have loop: "pixel_loop img1 img2 ?n 0 (Some 0) = Some (of_int ?D)"
    by (simp add: atLeast0LessThan)
  have "\<bar>255 * int ?n\<bar> \<le> 2 ^ 53" using assms(4) by simp
  then have "fl64 (of_int (255 * int ?n)) = of_int (255 * int ?n)" by (rule fl64_of_int)
  moreover have "real ?n * 255 = of_int (255 * int ?n)" by simp
  ultimately have max: "fl64 (real ?n * 255) = of_int (255 * int ?n)" by (simp only:)
  have pos: "real_of_int (255 * int ?n) \<noteq> 0" using assms(3) by simp
  show ?thesis
    unfolding signature_similarity_def Let_def loop max option.case using pos
    by (simp only: if_False)
qed

lemma canonical_similarity:
  assumes "width img1 = 300" and "height img1 = 150"
    and "length (data img1) = 45000" and "length (data img2) = 45000"
  shows "\<exists>D. 0 \<le> D \<and> D \<le> 11475000
       \<and> D = (\<Sum>i < 45000. \<bar>ipixel img1 i - ipixel img2 i\<bar>)
       \<and> similarity_formula img1 img2 = 1 - of_int D / 11475000
       \<and> signature_similarity img1 img2 = Some (fl64 (1 - fl64 (of_int D / 11475000)))"
proof -
  define D where "D = (\<Sum>i < 45000. \<bar>ipixel img1 i - ipixel img2 i\<bar>)"
  have range: "0 \<le> D \<and> D \<le> 11475000"
    using ipixel_sum_range [where n = 45000 and ?img1.0 = img1 and ?img2.0 = img2]
    by (simp add: D_def)
  have formula: "similarity_formula img1 img2 = 1 - of_int D / 11475000"
    by (simp only: similarity_formula_def pixel_sum_int assms(1,2)) (simp add: D_def)
  have "signature_similarity img1 img2 = Some (fl64 (1 - fl64 (of_int D / 11475000)))"
    using signature_similarity_sum [of img1 img2] assms by (simp add: D_def)
  with range formula show ?thesis unfolding D_def by blast
qed

text \<open>
  At the canonical size the divisor is \<open>45000 \<times> 255 = 11475000\<close>. The exact similarity
  times \<open>10^4\<close> then stays at least \<open>4 / 11475000\<close> away from every point where the
  fourth decimal changes, and the two roundings move the computed similarity by at most
  \<open>4 / 2^53\<close>: the printed four decimals are those of the exact value.
\<close>

lemma tiny_le: "(2::real) powi (- 1075) \<le> 1 / 2 ^ 53"
proof -
  have "(2::real) powi (- 1075) \<le> 2 powi (- 53)"
    by (rule power_int_increasing) simp_all
  also have "(2::real) powi (- 53) = 1 / 2 ^ 53"
    by (simp add: power_int_def inverse_eq_divide power_one_over)
  finally show ?thesis .
qed

lemma fl64_err_unit: "\<bar>x\<bar> \<le> 1 \<Longrightarrow> \<bar>fl64 x - x\<bar> \<le> 2 / 2 ^ 53"
proof -
  assume "\<bar>x\<bar> \<le> 1"
  then have "\<bar>x\<bar> / 2 ^ 53 \<le> 1 / 2 ^ 53" by (simp add: divide_right_mono)
  with fl64_err [of x] tiny_le show ?thesis by linarith
qed

lemma fl64_unit_interval: "0 \<le> x \<Longrightarrow> x \<le> 1 \<Longrightarrow> 0 \<le> fl64 x \<and> fl64 x \<le> 1"
  using fl64_mono [of 0 x] fl64_mono [of x 1] by simp

lemma canonical_margin:
  fixes D m :: int
  assumes "22950000 * m \<le> 20000 * (11475000 - D) + 11475000"
    and "20000 * (11475000 - D) + 11475000 < 22950000 * (m + 1)"
  shows "22950000 * m + 8 \<le> 20000 * (11475000 - D) + 11475000
       \<and> 20000 * (11475000 - D) + 11475000 + 8 \<le> 22950000 * (m + 1)"
proof -
  define K where "K = 2500 * (11475000 - D) + 1434375 - 2868750 * m"
  have e: "20000 * (11475000 - D) + 11475000 - 22950000 * m = 8 * K" by (simp add: K_def)
  have "odd K" by (simp add: K_def)
  moreover have "0 \<le> 8 * K" using assms(1) e by linarith
  ultimately have "1 \<le> K" by (cases "K = 0") auto
  moreover have d: "22950000 * (m + 1) = 22950000 * m + 22950000" by simp
  moreover have "8 * K < 22950000" using assms(2) e d by linarith
  then have "8 * K \<le> 22950000 - 8" by presburger
  ultimately show ?thesis using e by linarith
qed

lemma canonical_rounding:
  fixes D :: int
  assumes "0 \<le> D" and "D \<le> 11475000"
  shows "toFixed4 (fl64 (1 - fl64 (of_int D / 11475000))) = toFixed4 (1 - of_int D / 11475000)"
proof -
  define x :: real where "x = 1 - of_int D / 11475000"
  define q where "q = fl64 (of_int D / 11475000)"
  define s where "s = fl64 (1 - q)"
  define m where "m = \<lfloor>x * 10000 + 1 / 2\<rfloor>"
  have d01: "0 \<le> real_of_int D / 11475000 \<and> real_of_int D / 11475000 \<le> 1"
    using assms by simp
  then have q01: "0 \<le> q \<and> q \<le> 1" unfolding q_def by (intro fl64_unit_interval) simp_all
  then have s01: "0 \<le> s \<and> s \<le> 1" unfolding s_def by (intro fl64_unit_interval) simp_all
  have x01: "0 \<le> x \<and> x \<le> 1" using d01 by (simp add: x_def)
  have "\<bar>q - real_of_int D / 11475000\<bar> \<le> 2 / 2 ^ 53"
    unfolding q_def using d01 by (intro fl64_err_unit) simp
  moreover have "\<bar>s - (1 - q)\<bar> \<le> 2 / 2 ^ 53"
    unfolding s_def using q01 by (intro fl64_err_unit) simp
  ultimately have err: "\<bar>s - x\<bar> \<le> 4 / 2 ^ 53" unfolding x_def by linarith
  have fl: "of_int m \<le> x * 10000 + 1 / 2 \<and> x * 10000 + 1 / 2 < of_int m + 1"
    unfolding m_def by linarith
  have scaled: "x * 10000 + 1 / 2 = of_int (20000 * (11475000 - D) + 11475000) / 22950000"
    by (simp add: x_def field_simps)
  have "real_of_int (22950000 * m) \<le> of_int (20000 * (11475000 - D) + 11475000)"
    using fl scaled by (simp add: field_simps)
  then have i1: "22950000 * m \<le> 20000 * (11475000 - D) + 11475000"
    by (simp only: of_int_le_iff)
  have "real_of_int (20000 * (11475000 - D) + 11475000) < of_int (22950000 * (m + 1))"
    using fl scaled by (simp add: field_simps)
  then have i2: "20000 * (11475000 - D) + 11475000 < 22950000 * (m + 1)"
    by (simp only: of_int_less_iff)
  from canonical_margin [OF i1 i2]
  have "real_of_int (22950000 * m + 8) \<le> of_int (20000 * (11475000 - D) + 11475000)"
    and "real_of_int (20000 * (11475000 - D) + 11475000 + 8) \<le> of_int (22950000 * (m + 1))"
    by (simp_all only: of_int_le_iff)
  then have margin: "of_int m + 8 / 22950000 \<le> x * 10000 + 1 / 2
      \<and> x * 10000 + 1 / 2 \<le> of_int m + 1 - 8 / 22950000"
    unfolding scaled by (simp add: field_simps)
  from err have "\<bar>s - x\<bar> \<le> 1 / 2251799813685248" by simp
  then have "s - x \<le> 1 / 2251799813685248" and "x - s \<le> 1 / 2251799813685248"
    by linarith+
  with margin have "of_int m \<le> s * 10000 + 1 / 2 \<and> s * 10000 + 1 / 2 < of_int m + 1"
    by linarith
  then have "\<lfloor>s * 10000 + 1 / 2\<rfloor> = m" by (intro floor_unique) simp_all
  moreover have "\<not> 10 ^ 21 \<le> \<bar>s\<bar>" "\<not> s < 0" "\<not> 10 ^ 21 \<le> \<bar>x\<bar>" "\<not> x < 0"
    using s01 x01 by simp_all
  ultimately have "toFixed4 s = toFixed4 x" by (simp add: toFixed4_def m_def)
  then show ?thesis by (simp add: s_def q_def x_def)
qed

lemma uniform_dims:
  "width (uniform c) = 300" "height (uniform c) = 150" "length (data (uniform c)) = 45000"
  by (simp_all only: uniform_def raw_image.simps length_replicate)

lemma uniform_pixel: "i < 45000 \<Longrightarrow> pixel (uniform c) i = real (unat c)"
  by (simp only: pixel_def uniform_def raw_image.simps nth_replicate)

lemma uniform_formula:
  "similarity_formula (uniform a) (uniform b) = 1 - \<bar>real (unat a) - real (unat b)\<bar> / 255"
proof -
  have "(\<Sum>i < 45000. \<bar>pixel (uniform a) i - pixel (uniform b) i\<bar>) =
        (\<Sum>i < 45000::nat. \<bar>real (unat a) - real (unat b)\<bar>)"
    by (intro sum.cong) (simp_all only: uniform_pixel lessThan_iff)
  then show ?thesis
    by (simp only: similarity_formula_def uniform_dims) simp
qed

text \<open>
  Claim C4. For two canonical single-channel signature images, that is two rasters of
  300 by 150 pixels of one byte each as \<open>resize(300, 150).grayscale().raw()\<close> yields them,
  the comparator computes \<open>1 - (\<Sum>|p1\<^sub>i - p2\<^sub>i|) / (pixelCount \<times> 255)\<close> in double
  arithmetic: the computed value lies between 0 and 1, is within \<open>4 / 2^53\<close> of the exact
  value of the formula, is 1 for identical pixel data and 0 when every pixel pair differs
  by 255, and the response carries the formula's value rounded to four decimals.
\<close>

theorem signature_similarity_correct:
  assumes "sharp_signature s1 = Inr img1" and "sharp_signature s2 = Inr img2"
    and "width img1 = 300" and "height img1 = 150"
    and "width img2 = 300" and "height img2 = 150"
    and "length (data img1) = 45000" and "length (data img2) = 45000"
  shows "compare_signatures sharp_signature (Some s1) (Some s2) =
            SigSimilarity (Some (toFixed4 (similarity_formula img1 img2)))
       \<and> 0 \<le> toFixed4 (similarity_formula img1 img2)
       \<and> toFixed4 (similarity_formula img1 img2) \<le> 1
       \<and> (\<exists>s. signature_similarity img1 img2 = Some s \<and> 0 \<le> s \<and> s \<le> 1
              \<and> \<bar>s - similarity_formula img1 img2\<bar> \<le> 4 / 2 ^ 53)
       \<and> (data img1 = data img2 \<longrightarrow> signature_similarity img1 img2 = Some 1)
       \<and> ((\<forall>i < 45000. \<bar>pixel img1 i - pixel img2 i\<bar> = 255)
            \<longrightarrow> signature_similarity img1 img2 = Some 0)"
proof -
  from assms(3,4,7,8) obtain D where D: "0 \<le> D" "D \<le> 11475000"
    and sum: "D = (\<Sum>i < 45000. \<bar>ipixel img1 i - ipixel img2 i\<bar>)"
    and formula: "similarity_formula img1 img2 = 1 - of_int D / 11475000"
    and sim: "signature_similarity img1 img2 = Some (fl64 (1 - fl64 (of_int D / 11475000)))"
    using canonical_similarity by blast
  let ?q = "fl64 (of_int D / 11475000)"
  let ?s = "fl64 (1 - ?q)"
  have d01: "0 \<le> real_of_int D / 11475000 \<and> real_of_int D / 11475000 \<le> 1" using D by simp
  then have q01: "0 \<le> ?q \<and> ?q \<le> 1" by (intro fl64_unit_interval) simp_all
  then have s01: "0 \<le> ?s \<and> ?s \<le> 1" by (intro fl64_unit_interval) simp_all
  have "\<bar>?q - real_of_int D / 11475000\<bar> \<le> 2 / 2 ^ 53"
    using d01 by (intro fl64_err_unit) simp
  moreover have "\<bar>?s - (1 - ?q)\<bar> \<le> 2 / 2 ^ 53"
    using q01 by (intro fl64_err_unit) simp
  ultimately have close: "\<bar>?s - similarity_formula img1 img2\<bar> \<le> 4 / 2 ^ 53"
    unfolding formula by linarith
  have "toFixed4 ?s = toFixed4 (similarity_formula img1 img2)"
    unfolding formula using D by (rule canonical_rounding)
  then have resp: "compare_signatures sharp_signature (Some s1) (Some s2) =
            SigSimilarity (Some (toFixed4 (similarity_formula img1 img2)))"
    using assms(1-6) sim by (simp add: compare_signatures_def)
  have range: "0 \<le> similarity_formula img1 img2 \<and> similarity_formula img1 img2 \<le> 1"
    by (rule similarity_formula_range)
  then have lo: "0 \<le> toFixed4 (similarity_formula img1 img2)" by (simp add: toFixed4_nonneg)
  have hi: "toFixed4 (similarity_formula img1 img2) \<le> 1"
    using toFixed4_mono [of "similarity_formula img1 img2" 1] range by (simp add: toFixed4_one)
  have same: "signature_similarity img1 img2 = Some 1" if "data img1 = data img2"
  proof -
    from that have "D = 0" by (simp add: sum ipixel_def)
    with sim show ?thesis by simp
  qed
  have inverted: "signature_similarity img1 img2 = Some 0"
    if "\<forall>i < 45000. \<bar>pixel img1 i - pixel img2 i\<bar> = 255"
  proof -
    have "\<bar>ipixel img1 i - ipixel img2 i\<bar> = 255" if "i < 45000" for i
    proof -
      from \<open>\<forall>i < 45000. \<bar>pixel img1 i - pixel img2 i\<bar> = 255\<close> that
      have "\<bar>pixel img1 i - pixel img2 i\<bar> = 255" by simp
      then have "real_of_int \<bar>ipixel img1 i - ipixel img2 i\<bar> = real_of_int 255"
        by (simp only: pixel_ipixel)
      then show ?thesis by (simp only: of_int_eq_iff)
    qed
    then have "D = (\<Sum>i < 45000::nat. 255)" unfolding sum by (intro sum.cong) simp_all
    then have "D = 11475000" by simp
    with sim show ?thesis by simp
  qed
  from resp lo hi sim s01 close same inverted show ?thesis by blast
qed

theorem signature_similarity_correct_witness:
  "compare_signatures Inr (Some (uniform 0)) (Some (uniform 50)) = SigSimilarity (Some 0.8039)
   \<and> similarity_formula (uniform 0) (uniform 50) = 41 / 51
   \<and> compare_signatures Inr (Some (uniform 7)) (Some (uniform 7)) = SigSimilarity (Some 1)
   \<and> signature_similarity (uniform 7) (uniform 7) = Some 1
   \<and> signature_similarity (uniform 0) (uniform 255) = Some 0"
  using
    signature_similarity_correct
      [where sharp_signature = Inr and ?s1.0 = "uniform 0" and ?s2.0 = "uniform 50"
         and ?img1.0 = "uniform 0" and ?img2.0 = "uniform 50"]
    signature_similarity_correct
      [where sharp_signature = Inr and ?s1.0 = "uniform 7" and ?s2.0 = "uniform 7"
         and ?img1.0 = "uniform 7" and ?img2.0 = "uniform 7"]
    signature_similarity_correct
      [where sharp_signature = Inr and ?s1.0 = "uniform 0" and ?s2.0 = "uniform 255"
         and ?img1.0 = "uniform 0" and ?img2.0 = "uniform 255"]
  by (simp add: uniform_dims uniform_formula uniform_pixel toFixed4_def)

text \<open>
  The canonical size matters. On an 8 by 4 raster with one byte differing by 153 the
  doubles give \<open>1 - 153/8160 = 0.98124999...\<close>, printed as \<open>0.9812\<close>, where the exact
  value \<open>0.98125\<close> would print as \<open>0.9813\<close>.
\<close>

lemma q_small: "fl64 (3 / 160) = 5404319552844595 / 288230376151711744"
  by (subst fl64_eval [where e = "- 6"]) (simp_all add: rne_def)

lemma s_small:
  "fl64 (282826056598867149 / 288230376151711744) = 4419157134357299 / 4503599627370496"
  by (subst fl64_eval [where e = "- 1"]) (simp_all add: rne_def)

lemma r_small: "toFixed4 (4419157134357299 / 4503599627370496) = 0.9812"
  by (simp add: toFixed4_def)

lemma r_exact: "toFixed4 (1 - 3 / 160) = 0.9813"
  by (simp add: toFixed4_def)

lemma gray_pixels:
  "width (gray w h d) = w" "height (gray w h d) = h" "data (gray w h d) = d"
  by (simp_all add: gray_def)

lemma small_raster_double:
  "compare_signatures Inr (Some (gray 8 4 (153 # replicate 31 0)))
     (Some (gray 8 4 (replicate 32 0))) = SigSimilarity (Some 0.9812)
   \<and> toFixed4 (similarity_formula (gray 8 4 (153 # replicate 31 0)) (gray 8 4 (replicate 32 0)))
       = 0.9813"
proof -
  let ?a = "gray 8 4 (153 # replicate 31 0)" and ?b = "gray 8 4 (replicate 32 0)"
  have sum: "(\<Sum>i < 32. \<bar>ipixel ?a i - ipixel ?b i\<bar>) = 153"
    by (simp add: ipixel_def gray_pixels lessThan_nat_numeral lessThan_Suc)
  have "signature_similarity ?a ?b = Some (fl64 (1 - fl64 (of_int 153 / of_int (255 * int 32))))"
    using signature_similarity_sum [of ?a ?b] sum by (simp add: gray_pixels)
  then have sim: "signature_similarity ?a ?b = Some (4419157134357299 / 4503599627370496)"
    by (simp only: of_int_numeral of_int_mult of_int_of_nat_eq of_nat_numeral)
      (simp add: q_small s_small)
  have formula: "similarity_formula ?a ?b = 1 - 3 / 160"
    using sum by (simp only: similarity_formula_def pixel_sum_int gray_pixels) simp
  have "compare_signatures Inr (Some ?a) (Some ?b) =
        SigSimilarity (Some (toFixed4 (4419157134357299 / 4503599627370496)))"
    using sim by (simp add: compare_signatures_def gray_pixels)
  then have "compare_signatures Inr (Some ?a) (Some ?b) = SigSimilarity (Some 0.9812)"
    by (simp only: r_small)
  moreover have "toFixed4 (similarity_formula ?a ?b) = 0.9813"
    by (simp only: formula r_exact)
  ultimately show ?thesis by blast
qed

end
